theory Spec2Isabelle
  imports Main "HOL-Library.Word" "HOL-Library.List_Lexorder"
begin

section \<open>JavaScript strings\<close>

text \<open>
  A JavaScript string is a sequence of 16-bit code units. The relational operators
  \<^verbatim>\<open><\<close> and \<^verbatim>\<open>>\<close> on two strings compare code unit by code unit, a proper
  prefix being the smaller string: the lexicographic order of lists over the order of
  16-bit words, which is the order \<open>HOL-Library.List_Lexorder\<close> puts on lists.
  A string is truthy exactly when it is not empty.
\<close>

type_synonym jsstring = "16 word list"

definition unit_of :: "char \<Rightarrow> 16 word" where
  "unit_of c = of_nat (of_char c)"

text \<open>The string literal of the source with the given (ASCII) text.\<close>

definition js :: "string \<Rightarrow> jsstring" where
  "js s = map unit_of s"

text \<open>
  \<^verbatim>\<open>pub < bound\<close> and \<^verbatim>\<open>pub > bound\<close> where \<open>bound\<close> is a string and \<open>pub\<close> is a
  string or \<^verbatim>\<open>undefined\<close> (the property is absent, \<open>None\<close>). With \<^verbatim>\<open>undefined\<close>
  both operands are converted to numbers, \<^verbatim>\<open>undefined\<close> becomes NaN, and every comparison
  with NaN is false.
\<close>

fun js_less :: "jsstring option \<Rightarrow> jsstring \<Rightarrow> bool" where
  "js_less None b = False"
| "js_less (Some p) b = (p < b)"

fun js_greater :: "jsstring option \<Rightarrow> jsstring \<Rightarrow> bool" where
  "js_greater None b = False"
| "js_greater (Some p) b = (p > b)"

section \<open>Documents and the state of the component\<close>

text \<open>
  A document is an element of the \<^verbatim>\<open>results\<close> array of the Federal Register API,
  with the fields that the list logic of the component reads (\<^verbatim>\<open>abstract\<close>,
  \<^verbatim>\<open>citation\<close> and \<^verbatim>\<open>html_url\<close> are only displayed). The properties
  \<^verbatim>\<open>publication_date\<close>, \<^verbatim>\<open>document_type\<close> and \<^verbatim>\<open>agencies\<close> may be absent
  (\<open>None\<close>, read as \<^verbatim>\<open>undefined\<close>) and are a string, a string and an array of
  agencies otherwise; an agency always carries a \<^verbatim>\<open>name\<close>.
\<close>

record agency_entry =
  name :: jsstring

record document =
  title :: jsstring
  publication_date :: "jsstring option"
  document_type :: "jsstring option"
  agencies :: "agency_entry list option"
  document_number :: jsstring

text \<open>
  The \<^verbatim>\<open>useState\<close> cells of \<^verbatim>\<open>App\<close>. The page counter is a JavaScript number that
  starts at 1 and only ever grows by 1, so it is a natural number here.
\<close>

record app_state =
  docs :: "document list"
  page :: nat
  hasMore :: bool
  loading :: bool
  error :: jsstring
  selected :: "document option"
  q :: jsstring
  agency :: jsstring
  docType :: jsstring
  startDate :: jsstring
  endDate :: jsstring
  bookmarks :: "jsstring list"

text \<open>The initial values of the cells (the bookmarks come from storage).\<close>

definition initial_state :: "jsstring list \<Rightarrow> app_state" where
  "initial_state bs =
     \<lparr>docs = [], page = 1, hasMore = True, loading = False, error = [], selected = None,
      q = [], agency = [], docType = [], startDate = [], endDate = [], bookmarks = bs\<rparr>"

section \<open>Filter engine\<close>

text \<open>\<^verbatim>\<open>(d.agencies || []).map((a) => a.name)\<close>\<close>

definition agency_names :: "document \<Rightarrow> jsstring list" where
  "agency_names d = map name (case agencies d of None \<Rightarrow> [] | Some as \<Rightarrow> as)"

text \<open>The callback of \<^verbatim>\<open>docs.filter\<close> in \<^verbatim>\<open>filtered\<close>, with its four early returns.\<close>

definition keep :: "app_state \<Rightarrow> document \<Rightarrow> bool" where
  "keep s d =
     (if agency s \<noteq> [] \<and> agency s \<notin> set (agency_names d) then False
      else if docType s \<noteq> [] \<and> document_type d \<noteq> Some (docType s) then False
      else let pub = publication_date d in
        if startDate s \<noteq> [] \<and> js_less pub (startDate s) then False
        else if endDate s \<noteq> [] \<and> js_greater pub (endDate s) then False
        else True)"

definition filtered :: "app_state \<Rightarrow> document list" where
  "filtered s = filter (keep s) (docs s)"

text \<open>
  A JavaScript \<^verbatim>\<open>Set\<close> of strings keeps its elements in insertion order and ignores
  the insertion of an element it already has.
\<close>

definition set_add :: "'a list \<Rightarrow> 'a \<Rightarrow> 'a list" where
  "set_add xs x = (if x \<in> set xs then xs else xs @ [x])"

text \<open>\<^verbatim>\<open>new Set(iterable)\<close>\<close>

definition new_Set :: "'a list \<Rightarrow> 'a list" where
  "new_Set xs = foldl set_add [] xs"

text \<open>
  \<^verbatim>\<open>Array.prototype.sort\<close> without a comparison function orders strings by
  \<^verbatim>\<open><\<close> on strings and is stable.
\<close>

definition array_sort :: "jsstring list \<Rightarrow> jsstring list" where
  "array_sort xs = sort xs"

definition agencyOptions :: "app_state \<Rightarrow> jsstring list" where
  "agencyOptions s =
     array_sort (foldl (\<lambda>st d. foldl (\<lambda>st' a. set_add st' (name a)) st
                                 (case agencies d of None \<Rightarrow> [] | Some as \<Rightarrow> as))
                       [] (docs s))"

text \<open>\<^verbatim>\<open>Boolean(v)\<close> for \<open>v\<close> a string or \<^verbatim>\<open>undefined\<close>.\<close>

fun truthy :: "jsstring option \<Rightarrow> bool" where
  "truthy None = False"
| "truthy (Some v) = (v \<noteq> [])"

definition typeOptions :: "app_state \<Rightarrow> jsstring list" where
  "typeOptions s =
     array_sort (map the (new_Set (filter truthy (map document_type (docs s)))))"

section \<open>Bookmarks\<close>

definition isBookmarked :: "app_state \<Rightarrow> jsstring \<Rightarrow> bool" where
  "isBookmarked s docNumber = (docNumber \<in> set (bookmarks s))"

text \<open>The updater passed to \<^verbatim>\<open>setBookmarks\<close>.\<close>

definition toggle :: "jsstring \<Rightarrow> jsstring list \<Rightarrow> jsstring list" where
  "toggle docNumber prev =
     (if docNumber \<in> set prev then filter (\<lambda>n. n \<noteq> docNumber) prev
      else prev @ [docNumber])"

definition toggleBookmark :: "jsstring \<Rightarrow> app_state \<Rightarrow> app_state" where
  "toggleBookmark docNumber s = s\<lparr>bookmarks := toggle docNumber (bookmarks s)\<rparr>"

section \<open>Fetcher\<close>

subsection \<open>Building the request URL\<close>

definition API_BASE :: jsstring where
  "API_BASE = js ''https://www.federalregister.gov/api/v1/documents.json''"

text \<open>
  \<^verbatim>\<open>String.prototype.trim\<close> removes white space and line terminators from both ends:
  TAB, LF, VT, FF, CR, SPACE, NBSP, U+1680, U+2000 to U+200A, U+2028, U+2029, U+202F,
  U+205F, U+3000 and U+FEFF.
\<close>

definition is_space :: "16 word \<Rightarrow> bool" where
  "is_space c =
     (c = 0x9 \<or> c = 0xA \<or> c = 0xB \<or> c = 0xC \<or> c = 0xD \<or> c = 0x20 \<or> c = 0xA0 \<or>
      c = 0x1680 \<or> (0x2000 \<le> c \<and> c \<le> 0x200A) \<or> c = 0x2028 \<or> c = 0x2029 \<or>
      c = 0x202F \<or> c = 0x205F \<or> c = 0x3000 \<or> c = 0xFEFF)"

definition trim :: "jsstring \<Rightarrow> jsstring" where
  "trim s = rev (dropWhile is_space (rev (dropWhile is_space s)))"

text \<open>
  \<^verbatim>\<open>String(n)\<close> for a non-negative integer \<open>n\<close> below \<open>10\<^sup>2\<^sup>1\<close>: its decimal digits.
\<close>

definition digit :: "nat \<Rightarrow> 16 word" where
  "digit d = of_nat (48 + d)"

function String_of_nat :: "nat \<Rightarrow> jsstring" where
  "String_of_nat n =
     (if n < 10 then [digit n] else String_of_nat (n div 10) @ [digit (n mod 10)])"
  by pat_completeness auto
termination
  by (relation "measure id") auto

text \<open>
  A \<^verbatim>\<open>URL\<close> object: the serialisation of everything before the query, and the list of
  name-value pairs of its \<^verbatim>\<open>searchParams\<close>. \<^verbatim>\<open>API_BASE\<close> is an absolute URL in normal
  form without query or fragment, so \<^verbatim>\<open>new URL(API_BASE)\<close> has no pairs.
\<close>

record url =
  before_query :: jsstring
  searchParams :: "(jsstring \<times> jsstring) list"

definition new_URL :: "jsstring \<Rightarrow> url" where
  "new_URL base = \<lparr>before_query = base, searchParams = []\<rparr>"

text \<open>
  \<^verbatim>\<open>URLSearchParams.set(name, value)\<close>: the first pair named \<open>name\<close> gets the value
  and the other pairs of that name are removed; without such a pair, the new pair is
  appended.
\<close>

fun params_set :: "(jsstring \<times> jsstring) list \<Rightarrow> jsstring \<Rightarrow> jsstring \<Rightarrow> (jsstring \<times> jsstring) list" where
  "params_set [] n v = [(n, v)]"
| "params_set (p # ps) n v =
     (if fst p = n then (n, v) # filter (\<lambda>r. fst r \<noteq> n) ps else p # params_set ps n v)"

definition searchParams_set :: "url \<Rightarrow> jsstring \<Rightarrow> jsstring \<Rightarrow> url" where
  "searchParams_set u n v = u\<lparr>searchParams := params_set (searchParams u) n v\<rparr>"

text \<open>
  The serialisation of the pairs (application/x-www-form-urlencoded): the string is read
  as code points, a surrogate without its partner becoming U+FFFD; the code points are
  encoded in UTF-8; a byte that is an ASCII letter or digit or one of \<^verbatim>\<open>* - . _\<close> stands
  for itself, the space byte becomes \<^verbatim>\<open>+\<close>, and any other byte becomes \<^verbatim>\<open>%\<close> and two
  upper-case hexadecimal digits.
\<close>

definition is_high :: "16 word \<Rightarrow> bool" where
  "is_high c = (0xD800 \<le> c \<and> c \<le> 0xDBFF)"

definition is_low :: "16 word \<Rightarrow> bool" where
  "is_low c = (0xDC00 \<le> c \<and> c \<le> 0xDFFF)"

fun code_points :: "jsstring \<Rightarrow> nat list" where
  "code_points [] = []"
| "code_points [c] = [if is_high c \<or> is_low c then 0xFFFD else unat c]"
| "code_points (c # d # cs) =
     (if is_high c \<and> is_low d
      then (0x10000 + (unat c - 0xD800) * 0x400 + (unat d - 0xDC00)) # code_points cs
      else (if is_high c \<or> is_low c then 0xFFFD else unat c) # code_points (d # cs))"

definition utf8 :: "nat \<Rightarrow> nat list" where
  "utf8 cp =
     (if cp < 0x80 then [cp]
      else if cp < 0x800 then [0xC0 + cp div 0x40, 0x80 + cp mod 0x40]
      else if cp < 0x10000
        then [0xE0 + cp div 0x1000, 0x80 + cp div 0x40 mod 0x40, 0x80 + cp mod 0x40]
      else [0xF0 + cp div 0x40000, 0x80 + cp div 0x1000 mod 0x40,
            0x80 + cp div 0x40 mod 0x40, 0x80 + cp mod 0x40])"

definition hex_upper :: "nat \<Rightarrow> 16 word" where
  "hex_upper d = of_nat (if d < 10 then 48 + d else 55 + d)"

definition unreserved :: "nat \<Rightarrow> bool" where
  "unreserved b =
     ((48 \<le> b \<and> b \<le> 57) \<or> (65 \<le> b \<and> b \<le> 90) \<or> (97 \<le> b \<and> b \<le> 122) \<or>
      b = 42 \<or> b = 45 \<or> b = 46 \<or> b = 95)"

definition encode_byte :: "nat \<Rightarrow> jsstring" where
  "encode_byte b =
     (if b = 32 then js ''+''
      else if unreserved b then [of_nat b]
      else js ''%'' @ [hex_upper (b div 16), hex_upper (b mod 16)])"

definition urlencode :: "jsstring \<Rightarrow> jsstring" where
  "urlencode s = concat (map encode_byte (concat (map utf8 (code_points s))))"

fun serialize_params :: "(jsstring \<times> jsstring) list \<Rightarrow> jsstring" where
  "serialize_params [] = []"
| "serialize_params [(n, v)] = urlencode n @ js ''='' @ urlencode v"
| "serialize_params ((n, v) # p # ps) =
     urlencode n @ js ''='' @ urlencode v @ js ''&'' @ serialize_params (p # ps)"

text \<open>\<^verbatim>\<open>url.toString()\<close>: a URL without pairs has no query.\<close>

definition url_toString :: "url \<Rightarrow> jsstring" where
  "url_toString u =
     (if searchParams u = [] then before_query u
      else before_query u @ js ''?'' @ serialize_params (searchParams u))"

text \<open>
  \<^verbatim>\<open>buildUrl\<close> up to its last line: the URL object after the calls of
  \<^verbatim>\<open>searchParams.set\<close>. The keyword \<^verbatim>\<open>q\<close> is the one of the current state.
\<close>

definition buildUrl_object :: "app_state \<Rightarrow> nat \<Rightarrow> url" where
  "buildUrl_object s nextPage =
     (let u0 = new_URL API_BASE;
          u1 = searchParams_set u0 (js ''per_page'') (js ''20'');
          u2 = searchParams_set u1 (js ''order'') (js ''newest'');
          u3 = searchParams_set u2 (js ''page'') (String_of_nat nextPage)
      in if trim (q s) \<noteq> [] then searchParams_set u3 (js ''conditions[term]'') (trim (q s))
         else u3)"

definition buildUrl :: "app_state \<Rightarrow> nat \<Rightarrow> jsstring" where
  "buildUrl s nextPage = url_toString (buildUrl_object s nextPage)"

subsection \<open>Fetching a page\<close>

text \<open>
  What \<^verbatim>\<open>fetch(url)\<close> followed by \<^verbatim>\<open>res.json()\<close> can give:
  \<^item> \<open>Rejected m\<close>: the promise of \<^verbatim>\<open>fetch\<close> is rejected (no response) with an error
    whose \<^verbatim>\<open>message\<close> is \<open>m\<close> (empty when the error has none);
  \<^item> \<open>Response st b\<close>: a response with status \<open>st\<close> and body \<open>b\<close>, where \<open>b\<close> is
    \<open>JsonRejected m\<close> when \<^verbatim>\<open>res.json()\<close> is rejected with message \<open>m\<close> (the body is
    not JSON), and \<open>Parsed p\<close> when the body is JSON: \<open>Nullish\<close> for \<^verbatim>\<open>null\<close>, and
    \<open>Object r\<close> for a value whose \<^verbatim>\<open>results\<close> is absent or \<^verbatim>\<open>null\<close>
    (\<open>r = None\<close>) or an array of documents.
\<close>

datatype payload = Nullish | Object "document list option"

datatype body = JsonRejected jsstring | Parsed payload

datatype outcome = Rejected jsstring | Response nat body

text \<open>\<^verbatim>\<open>res.ok\<close>: the status is in the range 200 to 299.\<close>

definition ok :: "nat \<Rightarrow> bool" where
  "ok st = (200 \<le> st \<and> st \<le> 299)"

text \<open>\<^verbatim>\<open>data?.results ?? []\<close>\<close>

fun results_of :: "payload \<Rightarrow> document list" where
  "results_of Nullish = []"
| "results_of (Object None) = []"
| "results_of (Object (Some items)) = items"

text \<open>
  The \<^verbatim>\<open>try\<close> block of \<^verbatim>\<open>fetchDocs\<close>: \<open>Inl m\<close> when it throws an error with message
  \<open>m\<close>, which happens before any cell is written, and otherwise the state after its
  writes. \<^verbatim>\<open>page\<close> and \<^verbatim>\<open>q\<close> are the values of the render that created the handler; the
  updater of \<^verbatim>\<open>setDocs\<close> receives the current list.
\<close>

definition try_block :: "bool \<Rightarrow> (jsstring \<Rightarrow> outcome) \<Rightarrow> app_state \<Rightarrow> jsstring + app_state" where
  "try_block reset fetch s =
     (let nextPage = (if reset then 1 else page s + 1) in
      case fetch (buildUrl s nextPage) of
        Rejected m \<Rightarrow> Inl m
      | Response st b \<Rightarrow>
          if \<not> ok st then Inl (js ''Request failed: '' @ String_of_nat st)
          else (case b of
                  JsonRejected m \<Rightarrow> Inl m
                | Parsed data \<Rightarrow>
                    let items = results_of data;
                        s1 = s\<lparr>hasMore := (length items \<noteq> 0)\<rparr>;
                        s2 = s1\<lparr>page := nextPage\<rparr>;
                        s3 = s2\<lparr>docs := (if reset then items else docs s2 @ items)\<rparr>
                    in Inr (if reset then s3\<lparr>selected := None\<rparr> else s3)))"

text \<open>
  \<^verbatim>\<open>fetchDocs(reset)\<close> from its call to the end of its \<^verbatim>\<open>finally\<close> block, given what
  the network answers to each URL.
\<close>

definition fetchDocs :: "bool \<Rightarrow> (jsstring \<Rightarrow> outcome) \<Rightarrow> app_state \<Rightarrow> app_state" where
  "fetchDocs reset fetch s =
     (let s1 = s\<lparr>loading := True\<rparr>;
          s2 = s1\<lparr>error := []\<rparr>;
          s3 = (case try_block reset fetch s2 of
                  Inl m \<Rightarrow> s2\<lparr>error := (if m \<noteq> [] then m else js ''Unknown error'')\<rparr>
                | Inr s' \<Rightarrow> s')
      in s3\<lparr>loading := False\<rparr>)"

text \<open>The keyword field: \<^verbatim>\<open>onChange={(e) => setQ(e.target.value)}\<close>.\<close>

definition setQ :: "jsstring \<Rightarrow> app_state \<Rightarrow> app_state" where
  "setQ v s = s\<lparr>q := v\<rparr>"

section \<open>Bookmark storage\<close>

subsection \<open>JSON texts\<close>

text \<open>
  The value that \<^verbatim>\<open>JSON.parse\<close> builds. A number is kept as its text (the component
  never computes with one) and an object as the list of its members in the order of the
  text.
\<close>

datatype json =
    JNull | JBool bool | JNumber jsstring | JString jsstring
  | JArray "json list" | JObject "(jsstring \<times> json) list"

text \<open>
  \<^verbatim>\<open>JSON.parse\<close> in two passes. The first cuts the text into tokens: the six
  punctuation marks, and the scalars (strings with their escapes decoded, numbers, and
  the words \<^verbatim>\<open>true\<close>, \<^verbatim>\<open>false\<close>, \<^verbatim>\<open>null\<close>), with white space (space, TAB, LF, CR)
  allowed between tokens. \<open>None\<close> is the \<^verbatim>\<open>SyntaxError\<close>.
\<close>

datatype token = LBrace | RBrace | LBracket | RBracket | Colon | Comma | Scalar json

definition is_json_space :: "16 word \<Rightarrow> bool" where
  "is_json_space c = (c = 0x20 \<or> c = 0x9 \<or> c = 0xA \<or> c = 0xD)"

definition is_digit :: "16 word \<Rightarrow> bool" where
  "is_digit c = (0x30 \<le> c \<and> c \<le> 0x39)"

definition hex_value :: "16 word \<Rightarrow> nat option" where
  "hex_value c =
     (if 0x30 \<le> c \<and> c \<le> 0x39 then Some (unat c - 0x30)
      else if 0x41 \<le> c \<and> c \<le> 0x46 then Some (unat c - 0x37)
      else if 0x61 \<le> c \<and> c \<le> 0x66 then Some (unat c - 0x57)
      else None)"

definition unescape :: "16 word \<Rightarrow> 16 word option" where
  "unescape e =
     (if e = 0x22 then Some 0x22 else if e = 0x5C then Some 0x5C
      else if e = 0x2F then Some 0x2F else if e = 0x62 then Some 0x8
      else if e = 0x66 then Some 0xC else if e = 0x6E then Some 0xA
      else if e = 0x72 then Some 0xD else if e = 0x74 then Some 0x9
      else None)"

text \<open>The code unit that four hexadecimal digits denote.\<close>

definition hex4 :: "16 word \<Rightarrow> 16 word \<Rightarrow> 16 word \<Rightarrow> 16 word \<Rightarrow> 16 word option" where
  "hex4 h1 h2 h3 h4 =
     (case (hex_value h1, hex_value h2, hex_value h3, hex_value h4) of
        (Some a, Some b, Some c, Some d) \<Rightarrow> Some (of_nat (((a * 16 + b) * 16 + c) * 16 + d))
      | _ \<Rightarrow> None)"

definition prepend :: "'a \<Rightarrow> ('a list \<times> 'b) option \<Rightarrow> ('a list \<times> 'b) option" where
  "prepend c r = map_option (\<lambda>(s, rest). (c # s, rest)) r"

text \<open>
  The rest of a string after its opening quote: up to the closing quote, no code unit
  below U+0020, and after a backslash one of \<^verbatim>\<open>" \ / b f n r t\<close> or \<^verbatim>\<open>u\<close> and four
  hexadecimal digits.
\<close>

fun lex_string :: "jsstring \<Rightarrow> (jsstring \<times> jsstring) option" where
  "lex_string [] = None"
| "lex_string (c # cs) =
     (if c = 0x22 then Some ([], cs)
      else if c = 0x5C then
        (case cs of
           [] \<Rightarrow> None
         | e # es \<Rightarrow>
             if e = 0x75 then
               (case es of
                  h1 # h2 # h3 # h4 # r \<Rightarrow>
                    (case hex4 h1 h2 h3 h4 of
                       None \<Rightarrow> None
                     | Some u \<Rightarrow> prepend u (lex_string r))
                | _ \<Rightarrow> None)
             else (case unescape e of
                     None \<Rightarrow> None
                   | Some u \<Rightarrow> prepend u (lex_string es)))
      else if c < 0x20 then None
      else prepend c (lex_string cs))"

text \<open>
  A number: an optional minus sign, then \<^verbatim>\<open>0\<close> or digits that do not start with
  \<^verbatim>\<open>0\<close>, then optionally a point and digits, then optionally \<^verbatim>\<open>e\<close> or \<^verbatim>\<open>E\<close>, a
  sign and digits.
\<close>

definition digits_then :: "jsstring \<Rightarrow> (jsstring \<times> jsstring) option" where
  "digits_then cs =
     (if takeWhile is_digit cs = [] then None
      else Some (takeWhile is_digit cs, dropWhile is_digit cs))"

definition int_part :: "jsstring \<Rightarrow> (jsstring \<times> jsstring) option" where
  "int_part cs =
     (case cs of
        [] \<Rightarrow> None
      | c # r \<Rightarrow> if c = 0x30 then Some ([c], r) else digits_then cs)"

definition frac_part :: "jsstring \<Rightarrow> (jsstring \<times> jsstring) option" where
  "frac_part cs =
     (case cs of
        [] \<Rightarrow> Some ([], [])
      | c # r \<Rightarrow> if c = 0x2E then prepend c (digits_then r) else Some ([], cs))"

definition exp_part :: "jsstring \<Rightarrow> (jsstring \<times> jsstring) option" where
  "exp_part cs =
     (case cs of
        [] \<Rightarrow> Some ([], [])
      | c # r \<Rightarrow>
          if c = 0x65 \<or> c = 0x45 then
            (case r of
               [] \<Rightarrow> None
             | d # t \<Rightarrow>
                 if d = 0x2B \<or> d = 0x2D then prepend c (prepend d (digits_then t))
                 else prepend c (digits_then r))
          else Some ([], cs))"

definition unsigned_number :: "jsstring \<Rightarrow> (jsstring \<times> jsstring) option" where
  "unsigned_number cs =
     (case int_part cs of
        None \<Rightarrow> None
      | Some (i, r1) \<Rightarrow>
          (case frac_part r1 of
             None \<Rightarrow> None
           | Some (f, r2) \<Rightarrow>
               (case exp_part r2 of
                  None \<Rightarrow> None
                | Some (e, r3) \<Rightarrow> Some (i @ f @ e, r3))))"

definition lex_number :: "jsstring \<Rightarrow> (jsstring \<times> jsstring) option" where
  "lex_number cs =
     (case cs of
        [] \<Rightarrow> None
      | c # r \<Rightarrow> if c = 0x2D then prepend c (unsigned_number r) else unsigned_number cs)"

definition lex_word :: "jsstring \<Rightarrow> (json \<times> jsstring) option" where
  "lex_word cs =
     (if take 4 cs = js ''true'' then Some (JBool True, drop 4 cs)
      else if take 5 cs = js ''false'' then Some (JBool False, drop 5 cs)
      else if take 4 cs = js ''null'' then Some (JNull, drop 4 cs)
      else None)"

definition punctuation :: "16 word \<Rightarrow> token option" where
  "punctuation c =
     (if c = 0x7B then Some LBrace else if c = 0x7D then Some RBrace
      else if c = 0x5B then Some LBracket else if c = 0x5D then Some RBracket
      else if c = 0x3A then Some Colon else if c = 0x2C then Some Comma
      else None)"

text \<open>One token from the front of a text that does not start with white space.\<close>

definition next_token :: "jsstring \<Rightarrow> (token \<times> jsstring) option" where
  "next_token cs =
     (case cs of
        [] \<Rightarrow> None
      | c # r \<Rightarrow>
          (case punctuation c of
             Some t \<Rightarrow> Some (t, r)
           | None \<Rightarrow>
               if c = 0x22 then map_option (\<lambda>(s, rest). (Scalar (JString s), rest)) (lex_string r)
               else if c = 0x2D \<or> is_digit c
                 then map_option (\<lambda>(n, rest). (Scalar (JNumber n), rest)) (lex_number cs)
               else map_option (\<lambda>(v, rest). (Scalar v, rest)) (lex_word cs)))"

function tokens :: "jsstring \<Rightarrow> token list option" where
  "tokens cs =
     (case dropWhile is_json_space cs of
        [] \<Rightarrow> Some []
      | c # r \<Rightarrow>
          (case next_token (c # r) of
             None \<Rightarrow> None
           | Some (t, rest) \<Rightarrow>
               if length rest < length (c # r) then map_option ((#) t) (tokens rest)
               else None))"
  by pat_completeness auto
termination
proof (relation "measure length")
  show "wf (measure length)" by simp
next
  fix cs rest :: jsstring and c r
  assume "dropWhile is_json_space cs = c # r" and "length rest < length (c # r)"
  moreover have "length (dropWhile is_json_space cs) \<le> length cs"
    by (rule length_dropWhile_le)
  ultimately show "(rest, cs) \<in> measure length" by simp
qed

text \<open>
  The second pass reads the tokens with a stack of the arrays and objects that are open
  (their elements and members in reverse order, and for an object the key that waits for
  its value) and with what may come next.
\<close>

datatype frame = InArray "json list" | InObject "(jsstring \<times> json) list" "jsstring option"

datatype expect =
  Value | ValueOrClose | KeyOrClose | Key | ColonNext | CommaOrClose | Finished json

fun put :: "json \<Rightarrow> frame list \<Rightarrow> (frame list \<times> expect) option" where
  "put v [] = Some ([], Finished v)"
| "put v (InArray es # st) = Some (InArray (v # es) # st, CommaOrClose)"
| "put v (InObject ms (Some k) # st) = Some (InObject ((k, v) # ms) None # st, CommaOrClose)"
| "put v (InObject ms None # st) = None"

definition begin_value :: "frame list \<Rightarrow> token \<Rightarrow> (frame list \<times> expect) option" where
  "begin_value st t =
     (case t of
        Scalar v \<Rightarrow> put v st
      | LBracket \<Rightarrow> Some (InArray [] # st, ValueOrClose)
      | LBrace \<Rightarrow> Some (InObject [] None # st, KeyOrClose)
      | _ \<Rightarrow> None)"

definition member_key :: "frame list \<Rightarrow> token \<Rightarrow> (frame list \<times> expect) option" where
  "member_key st t =
     (case (st, t) of
        (InObject ms None # st', Scalar (JString k)) \<Rightarrow> Some (InObject ms (Some k) # st', ColonNext)
      | _ \<Rightarrow> None)"

definition close :: "frame list \<Rightarrow> token \<Rightarrow> (frame list \<times> expect) option" where
  "close st t =
     (case (st, t) of
        (InArray es # st', RBracket) \<Rightarrow> put (JArray (rev es)) st'
      | (InObject ms None # st', RBrace) \<Rightarrow> put (JObject (rev ms)) st'
      | _ \<Rightarrow> None)"

definition separator :: "frame list \<Rightarrow> (frame list \<times> expect) option" where
  "separator st =
     (case st of
        InArray es # st' \<Rightarrow> Some (st, Value)
      | InObject ms None # st' \<Rightarrow> Some (st, Key)
      | _ \<Rightarrow> None)"

definition step :: "frame list \<times> expect \<Rightarrow> token \<Rightarrow> (frame list \<times> expect) option" where
  "step cfg t =
     (case cfg of
        (st, Value) \<Rightarrow> begin_value st t
      | (st, ValueOrClose) \<Rightarrow> if t = RBracket then close st t else begin_value st t
      | (st, KeyOrClose) \<Rightarrow> if t = RBrace then close st t else member_key st t
      | (st, Key) \<Rightarrow> member_key st t
      | (st, ColonNext) \<Rightarrow> if t = Colon then Some (st, Value) else None
      | (st, CommaOrClose) \<Rightarrow> if t = Comma then separator st else close st t
      | (st, Finished v) \<Rightarrow> None)"

fun run :: "frame list \<times> expect \<Rightarrow> token list \<Rightarrow> (frame list \<times> expect) option" where
  "run cfg [] = Some cfg"
| "run cfg (t # ts) = (case step cfg t of None \<Rightarrow> None | Some cfg' \<Rightarrow> run cfg' ts)"

definition JSON_parse :: "jsstring \<Rightarrow> json option" where
  "JSON_parse text =
     (case tokens text of
        None \<Rightarrow> None
      | Some ts \<Rightarrow>
          (case run ([], Value) ts of
             Some ([], Finished v) \<Rightarrow> Some v
           | _ \<Rightarrow> None))"

text \<open>
  \<^verbatim>\<open>JSON.stringify\<close> of an array of strings, which is what the bookmarks are: each
  string in quotes, with the quote, the backslash and the control characters escaped, a
  surrogate without its partner written as a \<^verbatim>\<open>\u\<close> escape, and the strings separated
  by commas between brackets.
\<close>

definition hex_lower :: "nat \<Rightarrow> 16 word" where
  "hex_lower d = of_nat (if d < 10 then 48 + d else 87 + d)"

definition unicode_escape :: "16 word \<Rightarrow> jsstring" where
  "unicode_escape c =
     [0x5C, 0x75, hex_lower (unat c div 4096), hex_lower (unat c div 256 mod 16),
                    hex_lower (unat c div 16 mod 16), hex_lower (unat c mod 16)]"

definition quote_unit :: "16 word \<Rightarrow> jsstring" where
  "quote_unit c =
     (if c = 0x8 then [0x5C, 0x62] else if c = 0x9 then [0x5C, 0x74]
      else if c = 0xA then [0x5C, 0x6E] else if c = 0xC then [0x5C, 0x66]
      else if c = 0xD then [0x5C, 0x72] else if c = 0x22 then [0x5C, 0x22]
      else if c = 0x5C then [0x5C, 0x5C]
      else if c < 0x20 \<or> is_high c \<or> is_low c then unicode_escape c
      else [c])"

fun quote_units :: "jsstring \<Rightarrow> jsstring" where
  "quote_units [] = []"
| "quote_units [c] = quote_unit c"
| "quote_units (c # d # cs) =
     (if is_high c \<and> is_low d then c # d # quote_units cs
      else quote_unit c @ quote_units (d # cs))"

definition QuoteJSONString :: "jsstring \<Rightarrow> jsstring" where
  "QuoteJSONString s = [0x22] @ quote_units s @ [0x22]"

fun join_comma :: "jsstring list \<Rightarrow> jsstring" where
  "join_comma [] = []"
| "join_comma (x # xs) = x @ concat (map (\<lambda>y. js '','' @ y) xs)"

definition JSON_stringify :: "jsstring list \<Rightarrow> jsstring" where
  "JSON_stringify xs = js ''['' @ join_comma (map QuoteJSONString xs) @ js '']''"

subsection \<open>The \<^verbatim>\<open>useLocalStorage\<close> hook\<close>

text \<open>
  \<^verbatim>\<open>localStorage\<close>: either every access throws (storage is disabled), or it holds a
  string for some keys. \<open>Inl ()\<close> is the exception.
\<close>

datatype storage = Disabled | Items "jsstring \<Rightarrow> jsstring option"

definition getItem :: "storage \<Rightarrow> jsstring \<Rightarrow> unit + jsstring option" where
  "getItem st key = (case st of Disabled \<Rightarrow> Inl () | Items m \<Rightarrow> Inr (m key))"

definition setItem :: "storage \<Rightarrow> jsstring \<Rightarrow> jsstring \<Rightarrow> unit + storage" where
  "setItem st key v = (case st of Disabled \<Rightarrow> Inl () | Items m \<Rightarrow> Inr (Items (m(key \<mapsto> v))))"

text \<open>
  The initialiser of the state cell: the parsed value of the stored text, and
  \<open>initialValue\<close> when reading throws, when nothing or the empty string is stored, and
  when \<^verbatim>\<open>JSON.parse\<close> throws.
\<close>

definition useLocalStorage_initial :: "storage \<Rightarrow> jsstring \<Rightarrow> json \<Rightarrow> json" where
  "useLocalStorage_initial st key initialValue =
     (case getItem st key of
        Inl _ \<Rightarrow> initialValue
      | Inr None \<Rightarrow> initialValue
      | Inr (Some raw) \<Rightarrow>
          if raw \<noteq> [] then (case JSON_parse raw of None \<Rightarrow> initialValue | Some v \<Rightarrow> v)
          else initialValue)"

text \<open>
  The effect that runs after a render in which the value has changed, for a value that is
  an array of strings, as the bookmarks are; an exception of the write is dropped.
\<close>

definition useLocalStorage_effect :: "storage \<Rightarrow> jsstring \<Rightarrow> jsstring list \<Rightarrow> storage" where
  "useLocalStorage_effect st key v =
     (case setItem st key (JSON_stringify v) of Inl _ \<Rightarrow> st | Inr st' \<Rightarrow> st')"

text \<open>\<^verbatim>\<open>useLocalStorage("regx_bookmarks", [])\<close>\<close>

definition bookmarks_key :: jsstring where
  "bookmarks_key = js ''regx_bookmarks''"

definition load_bookmarks :: "storage \<Rightarrow> json" where
  "load_bookmarks st = useLocalStorage_initial st bookmarks_key (JArray [])"

definition save_bookmarks :: "storage \<Rightarrow> jsstring list \<Rightarrow> storage" where
  "save_bookmarks st bs = useLocalStorage_effect st bookmarks_key bs"

text \<open>The identifiers of a stored value that is an array of strings.\<close>

fun string_of :: "json \<Rightarrow> jsstring option" where
  "string_of (JString s) = Some s"
| "string_of _ = None"

fun string_array :: "json \<Rightarrow> jsstring list option" where
  "string_array (JArray vs) = those (map string_of vs)"
| "string_array _ = None"

section \<open>Reference predicates and sample data\<close>

text \<open>
  The four predicates as the specification words them, for comparison with \<open>keep\<close>: a
  document without publication date fails an active date bound.
\<close>

definition claimed_predicates :: "app_state \<Rightarrow> document \<Rightarrow> bool" where
  "claimed_predicates s d =
     ((agency s = [] \<or> agency s \<in> set (agency_names d)) \<and>
      (docType s = [] \<or> document_type d = Some (docType s)) \<and>
      (startDate s = [] \<or>
         (case publication_date d of None \<Rightarrow> False | Some p \<Rightarrow> startDate s \<le> p)) \<and>
      (endDate s = [] \<or>
         (case publication_date d of None \<Rightarrow> False | Some p \<Rightarrow> p \<le> endDate s)))"

text \<open>The number that a string of decimal digits denotes.\<close>

definition decimal_value :: "jsstring \<Rightarrow> nat" where
  "decimal_value ds = foldl (\<lambda>a c. 10 * a + (unat c - 48)) 0 ds"

definition undated_rule :: document where
  "undated_rule =
     \<lparr>title = js ''Air quality'', publication_date = None, document_type = Some (js ''Rule''),
      agencies = Some [\<lparr>name = js ''EPA''\<rparr>], document_number = js ''2024-05000''\<rparr>"

definition blank_date_rule :: document where
  "blank_date_rule = undated_rule\<lparr>publication_date := Some []\<rparr>"

definition march_rule :: document where
  "march_rule = undated_rule\<lparr>publication_date := Some (js ''2024-03-15'')\<rparr>"

definition april_notice :: document where
  "april_notice =
     \<lparr>title = js ''Airspace'', publication_date = Some (js ''2024-04-01''),
      document_type = Some (js ''Notice''),
      agencies = Some [\<lparr>name = js ''FAA''\<rparr>, \<lparr>name = js ''EPA''\<rparr>],
      document_number = js ''2024-07000''\<rparr>"

definition bare_document :: document where
  "bare_document =
     \<lparr>title = js ''Correction'', publication_date = Some (js ''2024-04-02''),
      document_type = Some [], agencies = None, document_number = js ''2024-07001''\<rparr>"

definition loaded :: "document list \<Rightarrow> app_state" where
  "loaded ds = (initial_state [])\<lparr>docs := ds\<rparr>"

definition year_2024 :: "app_state \<Rightarrow> app_state" where
  "year_2024 s = s\<lparr>startDate := js ''2024-01-01'', endDate := js ''2024-12-31''\<rparr>"

text \<open>
  A server that knows three pages: page 1 for ``water'', page 2 for ``air'' and page 3
  for ``soil''.
\<close>

definition keyword_server :: "jsstring \<Rightarrow> outcome" where
  "keyword_server u =
     (if u = js ''https://www.federalregister.gov/api/v1/documents.json?per_page=20&order=newest&page=1&conditions%5Bterm%5D=water''
      then Response 200 (Parsed (Object (Some [march_rule])))
      else if u = js ''https://www.federalregister.gov/api/v1/documents.json?per_page=20&order=newest&page=2&conditions%5Bterm%5D=air''
      then Response 200 (Parsed (Object (Some [undated_rule])))
      else if u = js ''https://www.federalregister.gov/api/v1/documents.json?per_page=20&order=newest&page=3&conditions%5Bterm%5D=soil''
      then Response 200 (Parsed (Object (Some [april_notice])))
      else Response 404 (JsonRejected []))"

definition one_page :: "document list \<Rightarrow> jsstring \<Rightarrow> outcome" where
  "one_page ds u = Response 200 (Parsed (Object (Some ds)))"

definition unavailable :: "jsstring \<Rightarrow> outcome" where
  "unavailable u = Response 503 (JsonRejected [])"

definition not_json :: "jsstring \<Rightarrow> outcome" where
  "not_json u = Response 200 (JsonRejected (js ''Unexpected end of JSON input''))"

section \<open>The visible subset\<close>

declare String_of_nat.simps [simp del]

lemmas sample_defs = loaded_def initial_state_def year_2024_def undated_rule_def
  blank_date_rule_def march_rule_def april_notice_def bare_document_def js_def unit_of_def
  agency_names_def

lemma Nil_less_iff: "[] < (x::jsstring) \<longleftrightarrow> x \<noteq> []"
  by (cases x) simp_all

lemma keep_iff:
  "keep s d \<longleftrightarrow>
     (agency s = [] \<or> agency s \<in> set (agency_names d)) \<and>
     (docType s = [] \<or> document_type d = Some (docType s)) \<and>
     (startDate s = [] \<or> publication_date d = None \<or>
        (\<exists>p. publication_date d = Some p \<and> startDate s \<le> p)) \<and>
     (endDate s = [] \<or> publication_date d = None \<or>
        (\<exists>p. publication_date d = Some p \<and> p \<le> endDate s))"
  by (cases "publication_date d") (auto simp: keep_def Let_def)

text \<open>
  C1 (as stated, refuted): a document without publication date is visible under an active
  end-date bound, although it does not satisfy the end-date predicate.
\<close>

theorem filtered_claimed_predicates_counterexample:
  "undated_rule \<in> set (filtered ((loaded [undated_rule])\<lparr>endDate := js ''2024-12-31''\<rparr>)) \<and>
   \<not> claimed_predicates ((loaded [undated_rule])\<lparr>endDate := js ''2024-12-31''\<rparr>) undated_rule"
  by (simp add: filtered_def keep_def claimed_predicates_def sample_defs)

text \<open>
  C1 (amended): the visible subset is a subset of the loaded list, and every visible
  document satisfies each active predicate, where the two date predicates also hold for
  a document that has no publication date: the agency filter is empty or the agency names
  of the document contain the selected agency; the type filter is empty or equals the
  document type; the start date is empty, or the publication date is absent or not below
  it; the end date is empty, or the publication date is absent or not above it.
\<close>

theorem filtered_subset_and_predicates:
  "set (filtered s) \<subseteq> set (docs s) \<and>
   (\<forall>d \<in> set (filtered s).
     (agency s = [] \<or> agency s \<in> set (agency_names d)) \<and>
     (docType s = [] \<or> document_type d = Some (docType s)) \<and>
     (startDate s = [] \<or> publication_date d = None \<or>
        (\<exists>p. publication_date d = Some p \<and> startDate s \<le> p)) \<and>
     (endDate s = [] \<or> publication_date d = None \<or>
        (\<exists>p. publication_date d = Some p \<and> p \<le> endDate s)))"
  unfolding filtered_def using keep_iff by auto

theorem filtered_subset_and_predicates_witness:
  "filtered (year_2024 ((loaded [march_rule, april_notice, undated_rule])\<lparr>docType := js ''Rule''\<rparr>))
     = [march_rule, undated_rule] \<and>
   march_rule \<in> set (docs (year_2024 ((loaded [march_rule, april_notice, undated_rule])\<lparr>docType := js ''Rule''\<rparr>))) \<and>
   document_type march_rule = Some (js ''Rule'') \<and>
   (\<exists>p. publication_date march_rule = Some p \<and> js ''2024-01-01'' \<le> p \<and> p \<le> js ''2024-12-31'')"
  using filtered_subset_and_predicates
    [of "year_2024 ((loaded [march_rule, april_notice, undated_rule])\<lparr>docType := js ''Rule''\<rparr>)"]
  by (simp add: filtered_def keep_def sample_defs)

text \<open>
  C2 (as stated, refuted): a document without publication date is visible under an active
  start-date bound, and a document with empty publication date is visible under an active
  end-date bound.
\<close>

theorem missing_date_visible_counterexample:
  "undated_rule \<in> set (filtered ((loaded [undated_rule])\<lparr>startDate := js ''2024-01-01''\<rparr>)) \<and>
   blank_date_rule \<in> set (filtered ((loaded [blank_date_rule])\<lparr>endDate := js ''2024-12-31''\<rparr>))"
  by (simp add: filtered_def keep_def sample_defs)

text \<open>
  C2 (amended): a document whose publication date is the empty string is excluded under
  every active start-date bound; the end-date bound has no effect on it; and neither date
  bound has an effect on a document whose publication date is absent.
\<close>

theorem missing_date_bounds:
  "(publication_date d = Some [] \<and> startDate s \<noteq> [] \<longrightarrow> d \<notin> set (filtered s)) \<and>
   (publication_date d = Some [] \<longrightarrow>
      (d \<in> set (filtered s) \<longleftrightarrow> d \<in> set (filtered (s\<lparr>endDate := []\<rparr>)))) \<and>
   (publication_date d = None \<longrightarrow>
      (d \<in> set (filtered s) \<longleftrightarrow> d \<in> set (filtered (s\<lparr>startDate := [], endDate := []\<rparr>))))"
  by (auto simp: filtered_def keep_def Let_def Nil_less_iff)

theorem missing_date_bounds_witness:
  "publication_date blank_date_rule = Some [] \<and> publication_date undated_rule = None \<and>
   blank_date_rule \<notin> set (filtered ((loaded [blank_date_rule])\<lparr>startDate := js ''2024-01-01''\<rparr>)) \<and>
   blank_date_rule \<in> set (filtered ((loaded [blank_date_rule])\<lparr>endDate := js ''2024-12-31''\<rparr>)) \<and>
   undated_rule \<in> set (filtered (year_2024 (loaded [undated_rule])))"
  using missing_date_bounds [of blank_date_rule "(loaded [blank_date_rule])\<lparr>startDate := js ''2024-01-01''\<rparr>"]
    missing_date_bounds [of blank_date_rule "(loaded [blank_date_rule])\<lparr>endDate := js ''2024-12-31''\<rparr>"]
    missing_date_bounds [of undated_rule "year_2024 (loaded [undated_rule])"]
  by (simp add: filtered_def keep_def sample_defs)

section \<open>The option lists\<close>

lemma set_foldl_set_add: "set (foldl set_add acc xs) = set acc \<union> set xs"
  by (induction xs arbitrary: acc) (auto simp: set_add_def)

lemma distinct_foldl_set_add: "distinct acc \<Longrightarrow> distinct (foldl set_add acc xs)"
  by (induction xs arbitrary: acc) (auto simp: set_add_def)

lemma set_new_Set: "set (new_Set xs) = set xs"
  by (simp add: new_Set_def set_foldl_set_add)

lemma distinct_new_Set: "distinct (new_Set xs)"
  by (simp add: new_Set_def distinct_foldl_set_add)

lemma set_foldl_names:
  "set (foldl (\<lambda>st a. set_add st (name a)) acc as) = set acc \<union> name ` set as"
  by (induction as arbitrary: acc) (auto simp: set_add_def)

lemma distinct_foldl_names:
  "distinct acc \<Longrightarrow> distinct (foldl (\<lambda>st a. set_add st (name a)) acc as)"
  by (induction as arbitrary: acc) (auto simp: set_add_def)

lemma set_foldl_docs:
  "set (foldl (\<lambda>st d. foldl (\<lambda>st' a. set_add st' (name a)) st
                 (case agencies d of None \<Rightarrow> [] | Some as \<Rightarrow> as)) acc ds)
   = set acc \<union> (\<Union>d \<in> set ds. set (agency_names d))"
  by (induction ds arbitrary: acc)
    (auto simp: set_foldl_names agency_names_def split: option.splits)

lemma distinct_foldl_docs:
  "distinct acc \<Longrightarrow>
   distinct (foldl (\<lambda>st d. foldl (\<lambda>st' a. set_add st' (name a)) st
                      (case agencies d of None \<Rightarrow> [] | Some as \<Rightarrow> as)) acc ds)"
  by (induction ds arbitrary: acc) (auto simp: distinct_foldl_names)

lemma truthy_iff: "truthy v \<longleftrightarrow> (\<exists>u. v = Some u \<and> u \<noteq> [])"
  by (cases v) auto

lemma inj_on_the_truthy: "inj_on the (set (new_Set (filter truthy xs)))"
proof (rule inj_onI)
  fix a b
  assume a: "a \<in> set (new_Set (filter truthy xs))"
    and b: "b \<in> set (new_Set (filter truthy xs))" and e: "the a = the b"
  from a b have "truthy a" "truthy b" by (auto simp: set_new_Set)
  then obtain u v where "a = Some u" "b = Some v" by (auto simp: truthy_iff)
  with e show "a = b" by simp
qed

text \<open>
  C6: the agency options and the type options have no duplicates and are sorted in the
  order of strings; the agency options are exactly the agency names that occur in the
  agency arrays of the loaded documents, and the type options are exactly the non-empty
  document types of the loaded documents.
\<close>

theorem options_distinct_sorted_exact:
  "distinct (agencyOptions s) \<and> sorted (agencyOptions s) \<and>
   set (agencyOptions s) = (\<Union>d \<in> set (docs s). set (agency_names d)) \<and>
   distinct (typeOptions s) \<and> sorted (typeOptions s) \<and>
   set (typeOptions s) = {t. t \<noteq> [] \<and> (\<exists>d \<in> set (docs s). document_type d = Some t)}"
proof -
  have a: "distinct (agencyOptions s)" "sorted (agencyOptions s)"
    "set (agencyOptions s) = (\<Union>d \<in> set (docs s). set (agency_names d))"
    by (simp_all add: agencyOptions_def array_sort_def distinct_foldl_docs set_foldl_docs)
  have t1: "distinct (typeOptions s)"
    by (simp add: typeOptions_def array_sort_def distinct_map inj_on_the_truthy
        distinct_new_Set)
  have t2: "sorted (typeOptions s)"
    by (simp add: typeOptions_def array_sort_def)
  have t3: "set (typeOptions s) =
      {t. t \<noteq> [] \<and> (\<exists>d \<in> set (docs s). document_type d = Some t)}"
    by (force simp: typeOptions_def array_sort_def set_new_Set truthy_iff image_iff)
  from a t1 t2 t3 show ?thesis by simp
qed

theorem options_distinct_sorted_exact_witness:
  "agencyOptions (loaded [april_notice, march_rule, bare_document, undated_rule])
     = [js ''EPA'', js ''FAA''] \<and>
   typeOptions (loaded [april_notice, march_rule, bare_document, undated_rule])
     = [js ''Notice'', js ''Rule''] \<and>
   distinct (agencyOptions (loaded [april_notice, march_rule, bare_document, undated_rule])) \<and>
   sorted (typeOptions (loaded [april_notice, march_rule, bare_document, undated_rule]))"
  using options_distinct_sorted_exact
    [of "loaded [april_notice, march_rule, bare_document, undated_rule]"]
  by (simp add: agencyOptions_def typeOptions_def array_sort_def new_Set_def set_add_def
      sample_defs)

section \<open>Toggling a bookmark\<close>

lemma toggle_absent_and_back: "x \<notin> set bs \<Longrightarrow> toggle x (toggle x bs) = bs"
  by (auto simp: toggle_def filter_id_conv)

text \<open>
  C7: toggling the same identifier twice in succession gives back the bookmark set: the
  list after the two calls has the same elements as the list before.
\<close>

theorem toggle_twice:
  "set (toggle x (toggle x bs)) = set bs \<and>
   set (bookmarks (toggleBookmark x (toggleBookmark x s))) = set (bookmarks s)"
  by (auto simp: toggle_def toggleBookmark_def)

theorem toggle_twice_witness:
  "set (toggle (js ''2024-05000'') (toggle (js ''2024-05000'') [js ''2024-05000'', js ''2024-07000'']))
     = {js ''2024-05000'', js ''2024-07000''} \<and>
   toggle (js ''2024-05000'') [js ''2024-05000'', js ''2024-07000''] = [js ''2024-07000'']"
  using toggle_twice [of "js ''2024-05000''" "[js ''2024-05000'', js ''2024-07000'']"]
  by (simp add: toggle_def js_def unit_of_def)

section \<open>The request URL\<close>

lemma all_dropWhile_iff:
  "(\<forall>x \<in> set (dropWhile P xs). P x) \<longleftrightarrow> (\<forall>x \<in> set xs. P x)"
  by (induction xs) auto

lemma trim_Nil_iff: "trim s = [] \<longleftrightarrow> (\<forall>c \<in> set s. is_space c)"
  by (simp add: trim_def dropWhile_eq_Nil_conv all_dropWhile_iff)

lemma searchParams_buildUrl_object:
  "searchParams (buildUrl_object s n) =
     (js ''per_page'', js ''20'') # (js ''order'', js ''newest'') #
     (js ''page'', String_of_nat n) #
     (if trim (q s) = [] then [] else [(js ''conditions[term]'', trim (q s))])"
  by (simp add: buildUrl_object_def new_URL_def searchParams_set_def Let_def js_def unit_of_def)

lemma before_query_buildUrl_object: "before_query (buildUrl_object s n) = API_BASE"
  by (simp add: buildUrl_object_def new_URL_def searchParams_set_def Let_def)

lemma buildUrl_cong: "q s = q s' \<Longrightarrow> buildUrl s n = buildUrl s' n"
  by (simp add: buildUrl_def buildUrl_object_def Let_def cong: if_cong)

text \<open>\<open>String_of_nat\<close> writes the number in decimal, so it determines the number.\<close>

lemma unat_digit: "d < 10 \<Longrightarrow> unat (digit d) = 48 + d"
proof -
  assume "d < 10"
  have "unat (of_nat (48 + d) :: 16 word) = (48 + d) mod 2 ^ 16"
    by (simp only: unat_of_nat len_of_numeral_defs) simp
  with \<open>d < 10\<close> show ?thesis by (simp add: digit_def del: of_nat_add)
qed

lemma decimal_value_String_of_nat: "decimal_value (String_of_nat n) = n"
proof (induction n rule: String_of_nat.induct)
  case (1 n)
  show ?case
  proof (cases "n < 10")
    case True
    then show ?thesis
      by (subst String_of_nat.simps) (simp add: decimal_value_def unat_digit)
  next
    case False
    with 1 have ih: "decimal_value (String_of_nat (n div 10)) = n div 10" by simp
    have "n mod 10 < 10" by simp
    then have d: "unat (digit (n mod 10)) = 48 + n mod 10" by (rule unat_digit)
    from False have "String_of_nat n = String_of_nat (n div 10) @ [digit (n mod 10)]"
      by (subst String_of_nat.simps) simp
    then have "decimal_value (String_of_nat n) =
        10 * decimal_value (String_of_nat (n div 10)) + n mod 10"
      by (simp add: decimal_value_def d)
    with ih show ?thesis by simp
  qed
qed

lemma String_of_nat_inj: "String_of_nat a = String_of_nat b \<Longrightarrow> a = b"
  by (metis decimal_value_String_of_nat)

lemmas url_eval = buildUrl_def url_toString_def searchParams_buildUrl_object
  before_query_buildUrl_object setQ_def initial_state_def trim_def is_space_def js_def
  unit_of_def String_of_nat.simps digit_def urlencode_def utf8_def encode_byte_def
  unreserved_def hex_upper_def is_high_def is_low_def API_BASE_def

text \<open>
  C9: for every keyword and target page, the URL that \<open>buildUrl\<close> returns is the fixed
  base followed by the query of exactly these parameters, in this order: \<^verbatim>\<open>per_page\<close>
  with value \<^verbatim>\<open>20\<close>, \<^verbatim>\<open>order\<close> with value \<^verbatim>\<open>newest\<close>, \<^verbatim>\<open>page\<close> with the target page in
  decimal, and the search term \<^verbatim>\<open>conditions[term]\<close> with the trimmed keyword, present if
  and only if the trimmed keyword is not empty; the trimmed keyword is empty exactly when
  the keyword consists of white space only (in particular when it is empty).
\<close>

theorem buildUrl_parameters:
  "before_query (buildUrl_object s n) = API_BASE \<and>
   searchParams (buildUrl_object s n) =
     (js ''per_page'', js ''20'') # (js ''order'', js ''newest'') #
     (js ''page'', String_of_nat n) #
     (if trim (q s) = [] then [] else [(js ''conditions[term]'', trim (q s))]) \<and>
   (trim (q s) = [] \<longleftrightarrow> (\<forall>c \<in> set (q s). is_space c)) \<and>
   decimal_value (String_of_nat n) = n \<and>
   buildUrl s n = API_BASE @ js ''?'' @ serialize_params (searchParams (buildUrl_object s n))"
  by (simp add: searchParams_buildUrl_object before_query_buildUrl_object trim_Nil_iff
      buildUrl_def url_toString_def decimal_value_String_of_nat)

theorem buildUrl_parameters_witness:
  "buildUrl (setQ (js ''  clean air '') (initial_state [])) 12 =
     js ''https://www.federalregister.gov/api/v1/documents.json?per_page=20&order=newest&page=12&conditions%5Bterm%5D=clean+air'' \<and>
   buildUrl (setQ (js ''   '') (initial_state [])) 1 =
     js ''https://www.federalregister.gov/api/v1/documents.json?per_page=20&order=newest&page=1'' \<and>
   buildUrl (initial_state []) 1 =
     js ''https://www.federalregister.gov/api/v1/documents.json?per_page=20&order=newest&page=1'' \<and>
   trim (js ''   '') = [] \<and> trim (js ''  clean air '') = js ''clean air''"
  using buildUrl_parameters [of "setQ (js ''  clean air '') (initial_state [])" 12]
    buildUrl_parameters [of "setQ (js ''   '') (initial_state [])" 1]
    buildUrl_parameters [of "initial_state []" 1]
  by (simp add: url_eval)

section \<open>Loading pages\<close>

lemma buildUrl_pending [simp]:
  "buildUrl (s\<lparr>loading := True, error := []\<rparr>) n = buildUrl s n"
  by (rule buildUrl_cong) simp

lemma fetchDocs_success:
  assumes "fetch (buildUrl s (if reset then 1 else page s + 1)) = Response st (Parsed data)"
    and "ok st"
  shows "fetchDocs reset fetch s =
           s\<lparr>docs := (if reset then results_of data else docs s @ results_of data),
             page := (if reset then 1 else page s + 1),
             hasMore := (results_of data \<noteq> []),
             selected := (if reset then None else selected s),
             error := [], loading := False\<rparr>"
  using assms by (cases reset) (simp_all add: fetchDocs_def try_block_def Let_def)

lemma fetchDocs_caught:
  assumes "try_block reset fetch (s\<lparr>loading := True, error := []\<rparr>) = Inl m"
  shows "fetchDocs reset fetch s =
           s\<lparr>error := (if m \<noteq> [] then m else js ''Unknown error''), loading := False\<rparr>"
  using assms by (simp add: fetchDocs_def Let_def)

lemma try_block_Rejected:
  "fetch (buildUrl s (if reset then 1 else page s + 1)) = Rejected m \<Longrightarrow>
   try_block reset fetch (s\<lparr>loading := True, error := []\<rparr>) = Inl m"
  by (cases reset) (simp_all add: try_block_def Let_def)

lemma try_block_status:
  "fetch (buildUrl s (if reset then 1 else page s + 1)) = Response st b \<Longrightarrow> \<not> ok st \<Longrightarrow>
   try_block reset fetch (s\<lparr>loading := True, error := []\<rparr>)
     = Inl (js ''Request failed: '' @ String_of_nat st)"
  by (cases reset) (simp_all add: try_block_def Let_def)

text \<open>The network enters \<open>fetchDocs\<close> only through its answer to the one URL of the request.\<close>

lemma fetchDocs_request:
  "fetch' (buildUrl s (if reset then 1 else page s + 1))
     = fetch (buildUrl s (if reset then 1 else page s + 1)) \<Longrightarrow>
   fetchDocs reset fetch' s = fetchDocs reset fetch s"
  by (cases reset) (simp_all add: fetchDocs_def try_block_def Let_def)

lemmas fetch_eval = fetchDocs_def try_block_def ok_def one_page_def unavailable_def
  not_json_def Let_def

text \<open>
  C3: when the page arrives, reset-and-load replaces the document list by the results of
  page 1, sets the page counter to 1 and clears the selected document; load-next-page asks
  for page \<open>page + 1\<close> (its outcome depends on the network only through the answer to
  the URL of that page), appends the results to the list as they are and moves the page
  counter to \<open>page + 1\<close>; both set \<open>hasMore\<close> to whether the page had an item.
\<close>

theorem fetchDocs_reset_and_next:
  "(fetch (buildUrl s 1) = Response st (Parsed data) \<and> ok st \<longrightarrow>
      docs (fetchDocs True fetch s) = results_of data \<and>
      page (fetchDocs True fetch s) = 1 \<and>
      selected (fetchDocs True fetch s) = None \<and>
      hasMore (fetchDocs True fetch s) = (results_of data \<noteq> [])) \<and>
   (fetch (buildUrl s (page s + 1)) = Response st (Parsed data) \<and> ok st \<longrightarrow>
      docs (fetchDocs False fetch s) = docs s @ results_of data \<and>
      page (fetchDocs False fetch s) = page s + 1 \<and>
      hasMore (fetchDocs False fetch s) = (results_of data \<noteq> [])) \<and>
   (fetch' (buildUrl s (page s + 1)) = fetch (buildUrl s (page s + 1)) \<longrightarrow>
      fetchDocs False fetch' s = fetchDocs False fetch s)"
  using fetchDocs_success [of fetch s True st data] fetchDocs_success [of fetch s False st data]
    fetchDocs_request [of fetch' s False fetch]
  by simp

theorem fetchDocs_reset_and_next_witness:
  "one_page [march_rule] (buildUrl ((loaded [march_rule, april_notice])\<lparr>selected := Some april_notice\<rparr>) 1)
     = Response 200 (Parsed (Object (Some [march_rule]))) \<and> ok 200 \<and>
   docs (fetchDocs True (one_page [march_rule])
          ((loaded [march_rule, april_notice])\<lparr>selected := Some april_notice\<rparr>)) = [march_rule] \<and>
   selected (fetchDocs True (one_page [march_rule])
          ((loaded [march_rule, april_notice])\<lparr>selected := Some april_notice\<rparr>)) = None \<and>
   docs (fetchDocs False (one_page [march_rule])
          ((loaded [march_rule, april_notice])\<lparr>selected := Some april_notice\<rparr>))
     = [march_rule, april_notice, march_rule] \<and>
   page (fetchDocs False (one_page [march_rule])
          ((loaded [march_rule, april_notice])\<lparr>selected := Some april_notice\<rparr>)) = 2 \<and>
   hasMore (fetchDocs False (one_page [])
          ((loaded [march_rule, april_notice])\<lparr>selected := Some april_notice\<rparr>)) = False \<and>
   fetchDocs False
     (\<lambda>u. if u = buildUrl ((loaded [march_rule, april_notice])\<lparr>selected := Some april_notice\<rparr>) 2
          then one_page [march_rule] u else Rejected [])
     ((loaded [march_rule, april_notice])\<lparr>selected := Some april_notice\<rparr>)
   = fetchDocs False (one_page [march_rule])
       ((loaded [march_rule, april_notice])\<lparr>selected := Some april_notice\<rparr>)"
proof -
  let ?s = "(loaded [march_rule, april_notice])\<lparr>selected := Some april_notice\<rparr>"
  let ?f = "\<lambda>u. if u = buildUrl ?s 2 then one_page [march_rule] u else Rejected []"
  have p: "page ?s + 1 = 2" by (simp add: loaded_def initial_state_def)
  have "?f (buildUrl ?s (page ?s + 1)) = one_page [march_rule] (buildUrl ?s (page ?s + 1))"
    unfolding p by simp
  with fetchDocs_reset_and_next [of "one_page [march_rule]" ?s 200 "Object (Some [march_rule])" ?f]
  have same: "fetchDocs False ?f ?s = fetchDocs False (one_page [march_rule]) ?s"
    by blast
  have rest: "one_page [march_rule] (buildUrl ?s 1) = Response 200 (Parsed (Object (Some [march_rule])))
      \<and> ok 200 \<and>
      docs (fetchDocs True (one_page [march_rule]) ?s) = [march_rule] \<and>
      selected (fetchDocs True (one_page [march_rule]) ?s) = None \<and>
      docs (fetchDocs False (one_page [march_rule]) ?s) = [march_rule, april_notice, march_rule] \<and>
      page (fetchDocs False (one_page [march_rule]) ?s) = 2 \<and>
      hasMore (fetchDocs False (one_page []) ?s) = False"
    using fetchDocs_reset_and_next [of "one_page [march_rule]" ?s 200 "Object (Some [march_rule])"]
      fetchDocs_reset_and_next [of "one_page []" ?s 200 "Object (Some [])"]
    by (simp add: fetch_eval loaded_def initial_state_def)
  from rest same show ?thesis by (simp only: simp_thms)
qed

text \<open>
  C4: when the request fails, by rejection of \<^verbatim>\<open>fetch\<close> or by a status outside 200 to
  299, the document list, the page counter and \<open>hasMore\<close> keep their values and the error
  is a non-empty message; a reset-and-load that then succeeds sets the error to the
  empty string and replaces the list.
\<close>

theorem fetchDocs_failure_keeps_list:
  assumes "fetch (buildUrl s (if reset then 1 else page s + 1)) = Rejected m \<or>
           (\<exists>st b. fetch (buildUrl s (if reset then 1 else page s + 1)) = Response st b \<and> \<not> ok st)"
    and "fetch' (buildUrl s 1) = Response st' (Parsed data')" and "ok st'"
  shows "docs (fetchDocs reset fetch s) = docs s \<and>
         page (fetchDocs reset fetch s) = page s \<and>
         hasMore (fetchDocs reset fetch s) = hasMore s \<and>
         error (fetchDocs reset fetch s) \<noteq> [] \<and>
         error (fetchDocs True fetch' (fetchDocs reset fetch s)) = [] \<and>
         docs (fetchDocs True fetch' (fetchDocs reset fetch s)) = results_of data'"
proof -
  from assms(1) obtain e
    where e: "try_block reset fetch (s\<lparr>loading := True, error := []\<rparr>) = Inl e"
    using try_block_Rejected try_block_status by blast
  let ?s' = "fetchDocs reset fetch s"
  have s': "?s' = s\<lparr>error := (if e \<noteq> [] then e else js ''Unknown error''), loading := False\<rparr>"
    by (rule fetchDocs_caught [OF e])
  have ne: "error ?s' \<noteq> []" by (simp add: s' js_def)
  have "buildUrl ?s' 1 = buildUrl s 1" by (rule buildUrl_cong) (simp add: s')
  with assms(2)
  have "fetch' (buildUrl ?s' (if True then 1 else page ?s' + 1)) = Response st' (Parsed data')"
    by simp
  with fetchDocs_success [of fetch' ?s' True st' data'] assms(3)
  have "error (fetchDocs True fetch' ?s') = []"
    "docs (fetchDocs True fetch' ?s') = results_of data'"
    by simp_all
  with ne show ?thesis by (simp add: s')
qed

theorem fetchDocs_failure_keeps_list_witness:
  "unavailable (buildUrl (loaded [march_rule]) (if False then 1 else page (loaded [march_rule]) + 1))
     = Response 503 (JsonRejected []) \<and> \<not> ok 503 \<and>
   docs (fetchDocs False unavailable (loaded [march_rule])) = [march_rule] \<and>
   page (fetchDocs False unavailable (loaded [march_rule])) = 1 \<and>
   error (fetchDocs False unavailable (loaded [march_rule])) = js ''Request failed: 503'' \<and>
   error (fetchDocs True (one_page [april_notice])
            (fetchDocs False unavailable (loaded [march_rule]))) = [] \<and>
   docs (fetchDocs True (one_page [april_notice])
            (fetchDocs False unavailable (loaded [march_rule]))) = [april_notice]"
proof -
  have a: "unavailable (buildUrl (loaded [march_rule])
             (if False then 1 else page (loaded [march_rule]) + 1))
           = Response 503 (JsonRejected [])"
    by (simp add: unavailable_def)
  have b: "\<not> ok 503" by (simp add: ok_def)
  have c: "one_page [april_notice] (buildUrl (loaded [march_rule]) 1)
           = Response 200 (Parsed (Object (Some [april_notice])))"
    by (simp add: one_page_def)
  have d: "ok 200" by (simp add: ok_def)
  have e: "error (fetchDocs False unavailable (loaded [march_rule])) = js ''Request failed: 503''"
    by (simp add: fetch_eval loaded_def initial_state_def String_of_nat.simps digit_def
        js_def unit_of_def)
  from a b have "unavailable (buildUrl (loaded [march_rule])
             (if False then 1 else page (loaded [march_rule]) + 1)) = Rejected [] \<or>
           (\<exists>st b. unavailable (buildUrl (loaded [march_rule])
             (if False then 1 else page (loaded [march_rule]) + 1)) = Response st b \<and> \<not> ok st)"
    by blast
  with fetchDocs_failure_keeps_list [of unavailable "loaded [march_rule]" False "[]"
      "one_page [april_notice]" 200 "Object (Some [april_notice])"] a b c d e
  show ?thesis
    by (simp add: loaded_def initial_state_def)
qed

text \<open>
  C5 (as stated, refuted): with status 200 and a body that is not JSON, \<^verbatim>\<open>res.json()\<close> is
  rejected and the fetch ends in an error, the list being kept: the body is not treated
  as an empty result list.
\<close>

theorem unparseable_body_is_error_counterexample:
  "ok 200 \<and>
   error (fetchDocs True not_json (loaded [march_rule])) = js ''Unexpected end of JSON input'' \<and>
   docs (fetchDocs True not_json (loaded [march_rule])) = [march_rule] \<and>
   docs (fetchDocs True (one_page []) (loaded [march_rule])) = [] \<and>
   error (fetchDocs True (one_page []) (loaded [march_rule])) = []"
  by (simp add: fetch_eval loaded_def initial_state_def js_def)

text \<open>
  C5 (amended): a response whose status is outside 200 to 299 makes the Fetcher fail with
  the error \<^verbatim>\<open>Request failed: \<close> followed by the status code. With a status in 200 to 299,
  a body that is JSON is no error, and a JSON body that is \<^verbatim>\<open>null\<close>, or an object whose
  \<^verbatim>\<open>results\<close> is absent or \<^verbatim>\<open>null\<close>, is treated exactly as an empty result list; a
  body that is not JSON is an error with the message of the parse failure
  (\<^verbatim>\<open>Unknown error\<close> when it has none), and the loaded list is kept.
\<close>

theorem fetchDocs_status_and_body:
  assumes "fetch (buildUrl s (if reset then 1 else page s + 1)) = Response st b"
  shows "(\<not> ok st \<longrightarrow>
            try_block reset fetch s = Inl (js ''Request failed: '' @ String_of_nat st) \<and>
            error (fetchDocs reset fetch s) = js ''Request failed: '' @ String_of_nat st) \<and>
         (ok st \<and> b = Parsed data \<longrightarrow>
            error (fetchDocs reset fetch s) = [] \<and>
            docs (fetchDocs reset fetch s)
              = (if reset then results_of data else docs s @ results_of data)) \<and>
         (ok st \<and> (b = Parsed Nullish \<or> b = Parsed (Object None)) \<longrightarrow>
            error (fetchDocs reset fetch s) = [] \<and>
            fetchDocs reset fetch s
              = fetchDocs reset (\<lambda>u. Response st (Parsed (Object (Some [])))) s) \<and>
         (ok st \<and> b = JsonRejected m \<longrightarrow>
            try_block reset fetch s = Inl m \<and>
            error (fetchDocs reset fetch s) = (if m \<noteq> [] then m else js ''Unknown error'') \<and>
            docs (fetchDocs reset fetch s) = docs s)"
  using assms
  by (cases reset) (auto simp: fetchDocs_def try_block_def Let_def js_def)

theorem fetchDocs_status_and_body_witness:
  "unavailable (buildUrl (loaded [march_rule]) (if True then 1 else page (loaded [march_rule]) + 1))
     = Response 503 (JsonRejected []) \<and> \<not> ok 503 \<and>
   error (fetchDocs True unavailable (loaded [march_rule])) = js ''Request failed: 503'' \<and>
   ok 200 \<and>
   fetchDocs True (\<lambda>u. Response 200 (Parsed (Object None))) (loaded [march_rule])
     = (loaded [])\<lparr>hasMore := False\<rparr> \<and>
   error (fetchDocs True not_json (loaded [march_rule])) = js ''Unexpected end of JSON input''"
  using fetchDocs_status_and_body [of unavailable "loaded [march_rule]" True 503 "JsonRejected []"]
    fetchDocs_status_and_body [of "\<lambda>u. Response 200 (Parsed (Object None))" "loaded [march_rule]"
      True 200 "Parsed (Object None)"]
    fetchDocs_status_and_body [of not_json "loaded [march_rule]" True 200
      "JsonRejected (js ''Unexpected end of JSON input'')" _ "js ''Unexpected end of JSON input''"]
  by (simp add: fetch_eval loaded_def initial_state_def String_of_nat.simps digit_def
      js_def unit_of_def)

text \<open>
  C10: load-next-page builds its request from the keyword field as it is at the call, not
  from the keyword of the search that loaded the list. In every state \<open>s\<close>, whatever
  search produced its documents, after a change of the field to \<open>k'\<close> without a new
  search, load-next-page asks for the URL of page \<open>page s + 1\<close> whose search term is the
  trimmed \<open>k'\<close> (no term when that is empty), its outcome depends on the network only
  through the answer to that URL, and the results of the answer are appended to the
  documents of \<open>s\<close>.
\<close>

theorem load_next_uses_current_keyword:
  assumes "fetch (buildUrl (setQ k' s) (page s + 1)) = Response st (Parsed d)" and "ok st"
  shows "docs (fetchDocs False fetch (setQ k' s)) = docs s @ results_of d \<and>
         page (fetchDocs False fetch (setQ k' s)) = page s + 1 \<and>
         q (fetchDocs False fetch (setQ k' s)) = k' \<and>
         buildUrl (setQ k' s) (page s + 1) =
           API_BASE @ js ''?'' @
           serialize_params (searchParams (buildUrl_object (setQ k' s) (page s + 1))) \<and>
         searchParams (buildUrl_object (setQ k' s) (page s + 1)) =
           (js ''per_page'', js ''20'') # (js ''order'', js ''newest'') #
           (js ''page'', String_of_nat (page s + 1)) #
           (if trim k' = [] then [] else [(js ''conditions[term]'', trim k')]) \<and>
         (fetch' (buildUrl (setQ k' s) (page s + 1)) = fetch (buildUrl (setQ k' s) (page s + 1))
            \<longrightarrow> fetchDocs False fetch' (setQ k' s) = fetchDocs False fetch (setQ k' s))"
proof -
  let ?s = "setQ k' s"
  have f: "page ?s = page s" "docs ?s = docs s" "q ?s = k'" "selected ?s = selected s"
    by (simp_all add: setQ_def)
  from assms(1) have "fetch (buildUrl ?s (if False then 1 else page ?s + 1))
      = Response st (Parsed d)"
    by (simp add: f)
  with fetchDocs_success [of fetch ?s False st d] assms(2)
  have r: "fetchDocs False fetch ?s =
      ?s\<lparr>docs := docs ?s @ results_of d, page := page ?s + 1,
         hasMore := (results_of d \<noteq> []), selected := selected ?s,
         error := [], loading := False\<rparr>"
    by simp
  have a: "docs (fetchDocs False fetch ?s) = docs s @ results_of d"
    "page (fetchDocs False fetch ?s) = page s + 1" "q (fetchDocs False fetch ?s) = k'"
    by (simp_all add: r f)
  have b: "searchParams (buildUrl_object ?s (page s + 1)) =
           (js ''per_page'', js ''20'') # (js ''order'', js ''newest'') #
           (js ''page'', String_of_nat (page s + 1)) #
           (if trim k' = [] then [] else [(js ''conditions[term]'', trim k')])"
    by (simp only: searchParams_buildUrl_object f)
  have c: "buildUrl ?s (page s + 1) =
           API_BASE @ js ''?'' @ serialize_params (searchParams (buildUrl_object ?s (page s + 1)))"
    by (simp add: buildUrl_def url_toString_def searchParams_buildUrl_object
        before_query_buildUrl_object)
  have e: "fetch' (buildUrl ?s (page s + 1)) = fetch (buildUrl ?s (page s + 1))
            \<longrightarrow> fetchDocs False fetch' ?s = fetchDocs False fetch ?s"
    using fetchDocs_request [of fetch' ?s False fetch] by (simp add: f)
  from a b c e show ?thesis by (simp only: simp_thms)
qed

theorem load_next_uses_current_keyword_witness:
  "keyword_server (buildUrl (setQ (js ''air'') ((loaded [march_rule])\<lparr>q := js ''water''\<rparr>)) 2)
     = Response 200 (Parsed (Object (Some [undated_rule]))) \<and> ok 200 \<and>
   docs (fetchDocs False keyword_server
          (setQ (js ''air'') ((loaded [march_rule])\<lparr>q := js ''water''\<rparr>)))
     = [march_rule, undated_rule] \<and>
   keyword_server (buildUrl (setQ (js ''soil'')
        ((loaded [march_rule, undated_rule])\<lparr>q := js ''air'', page := 2\<rparr>)) 3)
     = Response 200 (Parsed (Object (Some [april_notice]))) \<and>
   docs (fetchDocs False keyword_server
          (setQ (js ''soil'') ((loaded [march_rule, undated_rule])\<lparr>q := js ''air'', page := 2\<rparr>)))
     = [march_rule, undated_rule, april_notice] \<and>
   page (fetchDocs False keyword_server
          (setQ (js ''soil'') ((loaded [march_rule, undated_rule])\<lparr>q := js ''air'', page := 2\<rparr>)))
     = 3"
proof -
  let ?s1 = "(loaded [march_rule])\<lparr>q := js ''water''\<rparr>"
  let ?s2 = "(loaded [march_rule, undated_rule])\<lparr>q := js ''air'', page := 2\<rparr>"
  have p: "page ?s1 + 1 = 2" "page ?s2 + 1 = 3" "docs ?s1 = [march_rule]"
    "docs ?s2 = [march_rule, undated_rule]"
    by (simp_all add: loaded_def initial_state_def)
  have u: "buildUrl (setQ (js ''air'') ?s1) 2 = buildUrl (setQ (js ''air'') (initial_state [])) 2"
    "buildUrl (setQ (js ''soil'') ?s2) 3 = buildUrl (setQ (js ''soil'') (initial_state [])) 3"
    by (rule buildUrl_cong, simp add: setQ_def)+
  have a: "keyword_server (buildUrl (setQ (js ''air'') ?s1) 2)
     = Response 200 (Parsed (Object (Some [undated_rule])))"
    unfolding u by (simp add: keyword_server_def url_eval)
  have b: "keyword_server (buildUrl (setQ (js ''soil'') ?s2) 3)
     = Response 200 (Parsed (Object (Some [april_notice])))"
    unfolding u by (simp add: keyword_server_def url_eval)
  have c: "ok 200" by (simp add: ok_def)
  from a have a': "keyword_server (buildUrl (setQ (js ''air'') ?s1) (page ?s1 + 1))
     = Response 200 (Parsed (Object (Some [undated_rule])))"
    unfolding p .
  from b have b': "keyword_server (buildUrl (setQ (js ''soil'') ?s2) (page ?s2 + 1))
     = Response 200 (Parsed (Object (Some [april_notice])))"
    unfolding p .
  from load_next_uses_current_keyword [of keyword_server "js ''air''" ?s1 200
      "Object (Some [undated_rule])" keyword_server]
    load_next_uses_current_keyword [of keyword_server "js ''soil''" ?s2 200
      "Object (Some [april_notice])" keyword_server]
    a' b' c
  have "docs (fetchDocs False keyword_server (setQ (js ''air'') ?s1)) = [march_rule, undated_rule]"
    "docs (fetchDocs False keyword_server (setQ (js ''soil'') ?s2))
       = [march_rule, undated_rule, april_notice]"
    "page (fetchDocs False keyword_server (setQ (js ''soil'') ?s2)) = 3"
    unfolding p by simp_all
  with a b c show ?thesis by (simp only: simp_thms)
qed

text \<open>
  The scene of the claim: a search for \<open>k\<close>, an edit of the field to \<open>k'\<close>, and
  load-next-page, which asks for page 2 of \<open>k'\<close> and appends it to page 1 of \<open>k\<close>.
\<close>

lemma search_edit_load_next:
  assumes "fetch (buildUrl (setQ k s0) 1) = Response st1 (Parsed d1)" and "ok st1"
    and "fetch (buildUrl (setQ k' s0) 2) = Response st2 (Parsed d2)" and "ok st2"
  shows "docs (fetchDocs True fetch (setQ k s0)) = results_of d1 \<and>
         q (fetchDocs True fetch (setQ k s0)) = k \<and>
         docs (fetchDocs False fetch (setQ k' (fetchDocs True fetch (setQ k s0))))
           = results_of d1 @ results_of d2 \<and>
         page (fetchDocs False fetch (setQ k' (fetchDocs True fetch (setQ k s0)))) = 2"
proof -
  let ?s1 = "fetchDocs True fetch (setQ k s0)"
  have s1: "?s1 = (setQ k s0)\<lparr>docs := results_of d1, page := 1,
                   hasMore := (results_of d1 \<noteq> []),
                   selected := None, error := [], loading := False\<rparr>"
    using fetchDocs_success [of fetch "setQ k s0" True st1 d1] assms(1,2) by simp
  have p: "page (setQ k' ?s1) = 1" "docs (setQ k' ?s1) = results_of d1" "q ?s1 = k"
    "docs ?s1 = results_of d1"
    by (subst s1, simp add: setQ_def)+
  have u: "buildUrl (setQ k' ?s1) 2 = buildUrl (setQ k' s0) 2"
    by (rule buildUrl_cong) (simp add: setQ_def)
  have n: "(if False then 1 else page (setQ k' ?s1) + 1) = 2"
    using p by simp
  have "fetch (buildUrl (setQ k' ?s1) (if False then 1 else page (setQ k' ?s1) + 1))
        = Response st2 (Parsed d2)"
    unfolding n u using assms(3) .
  with fetchDocs_success [of fetch "setQ k' ?s1" False st2 d2] assms(4)
  have "docs (fetchDocs False fetch (setQ k' ?s1)) = docs (setQ k' ?s1) @ results_of d2"
    "page (fetchDocs False fetch (setQ k' ?s1)) = page (setQ k' ?s1) + 1"
    by simp_all
  then show ?thesis using p by simp
qed

section \<open>Bookmarks in storage\<close>

subsection \<open>Reading a quoted string back\<close>

lemma prepend_Some [simp]: "prepend c (Some (s, r)) = Some (c # s, r)"
  by (simp add: prepend_def)

lemma prepend_None [simp]: "prepend c None = None"
  by (simp add: prepend_def)

lemma hex_digits_of_nat:
  fixes n :: nat
  shows "((n div 4096 * 16 + n div 256 mod 16) * 16 + n div 16 mod 16) * 16 + n mod 16 = n"
proof -
  have a: "n div 4096 = n div 256 div 16" "n div 256 = n div 16 div 16"
    by (simp_all add: div_mult2_eq [symmetric])
  have "n div 4096 * 16 + n div 256 mod 16 = n div 256"
    unfolding a(1) by (rule div_mult_mod_eq)
  moreover have "n div 256 * 16 + n div 16 mod 16 = n div 16"
    unfolding a(2) by (rule div_mult_mod_eq)
  moreover have "n div 16 * 16 + n mod 16 = n"
    by (rule div_mult_mod_eq)
  ultimately show ?thesis by simp
qed

lemma unit_of_hex_digits:
  fixes c :: "16 word"
  shows "of_nat (((unat c div 4096 * 16 + unat c div 256 mod 16) * 16 + unat c div 16 mod 16) * 16
           + unat c mod 16) = c"
  by (simp only: hex_digits_of_nat) simp

lemma hex_value_hex_lower_all: "\<forall>d \<in> {..<16}. hex_value (hex_lower d) = Some d"
  by (simp add: lessThan_nat_numeral lessThan_Suc hex_value_def hex_lower_def)

lemma hex_value_hex_lower: "d < 16 \<Longrightarrow> hex_value (hex_lower d) = Some d"
  using hex_value_hex_lower_all by simp

lemma lex_string_escape_u:
  "hex_value h1 = Some a \<Longrightarrow> hex_value h2 = Some b \<Longrightarrow> hex_value h3 = Some c' \<Longrightarrow>
   hex_value h4 = Some d \<Longrightarrow>
   lex_string (0x5C # 0x75 # h1 # h2 # h3 # h4 # r)
     = prepend (of_nat (((a * 16 + b) * 16 + c') * 16 + d)) (lex_string r)"
  by (simp add: hex4_def)

lemma lex_string_unicode_escape:
  "lex_string (unicode_escape c @ rest) = prepend c (lex_string rest)"
proof -
  have d: "unat c div 4096 < 16" "unat c div 256 mod 16 < 16" "unat c div 16 mod 16 < 16"
    "unat c mod 16 < 16"
    using unsigned_less [of c, where 'a = nat] by simp_all
  have "lex_string (unicode_escape c @ rest) =
      prepend (of_nat (((unat c div 4096 * 16 + unat c div 256 mod 16) * 16
                 + unat c div 16 mod 16) * 16 + unat c mod 16)) (lex_string rest)"
    unfolding unicode_escape_def append_Cons append_Nil
    by (rule lex_string_escape_u) (simp_all only: hex_value_hex_lower d)
  then show ?thesis by (simp only: unit_of_hex_digits)
qed

lemma lex_string_plain:
  "c \<noteq> 0x22 \<Longrightarrow> c \<noteq> 0x5C \<Longrightarrow> \<not> c < 0x20 \<Longrightarrow> lex_string (c # rest) = prepend c (lex_string rest)"
  by simp

lemma lex_string_end: "lex_string (0x22 # rest) = Some ([], rest)"
  by simp

declare lex_string.simps [simp del]

lemma lex_string_quote_unit:
  "lex_string (quote_unit c @ rest) = prepend c (lex_string rest)"
proof -
  consider "c = 0x8" | "c = 0x9" | "c = 0xA" | "c = 0xC" | "c = 0xD" | "c = 0x22" | "c = 0x5C"
    | "c \<noteq> 0x8" "c \<noteq> 0x9" "c \<noteq> 0xA" "c \<noteq> 0xC" "c \<noteq> 0xD" "c \<noteq> 0x22" "c \<noteq> 0x5C"
      "c < 0x20 \<or> is_high c \<or> is_low c"
    | "c \<noteq> 0x8" "c \<noteq> 0x9" "c \<noteq> 0xA" "c \<noteq> 0xC" "c \<noteq> 0xD" "c \<noteq> 0x22" "c \<noteq> 0x5C"
      "\<not> (c < 0x20 \<or> is_high c \<or> is_low c)"
    by blast
  then show ?thesis
  proof cases
    case 8
    then have "quote_unit c = unicode_escape c" by (simp add: quote_unit_def)
    then show ?thesis by (simp only: lex_string_unicode_escape)
  next
    case 9
    then have "quote_unit c = [c]" by (simp add: quote_unit_def)
    with 9 show ?thesis by (simp add: lex_string_plain)
  qed (simp_all add: quote_unit_def unescape_def lex_string.simps)
qed

lemma surrogate_plain:
  "is_high c \<or> is_low c \<Longrightarrow> c \<noteq> 0x22 \<and> c \<noteq> 0x5C \<and> \<not> c < 0x20"
  by (auto simp: is_high_def is_low_def word_le_nat_alt word_less_nat_alt)

lemma lex_string_quote_units:
  "lex_string (quote_units s @ 0x22 # rest) = Some (s, rest)"
proof (induction s rule: quote_units.induct)
  case 1
  show ?case by (simp add: lex_string_end)
next
  case (2 c)
  have "lex_string (quote_unit c @ 0x22 # rest) = prepend c (lex_string (0x22 # rest))"
    by (rule lex_string_quote_unit)
  then show ?case by (simp add: lex_string_end)
next
  case (3 c d cs)
  show ?case
  proof (cases "is_high c \<and> is_low d")
    case True
    with 3 have ih: "lex_string (quote_units cs @ 0x22 # rest) = Some (cs, rest)" by simp
    from True have c: "c \<noteq> 0x22" "c \<noteq> 0x5C" "\<not> c < 0x20" and d: "d \<noteq> 0x22" "d \<noteq> 0x5C" "\<not> d < 0x20"
      using surrogate_plain [of c] surrogate_plain [of d] by simp_all
    have "lex_string (c # d # quote_units cs @ 0x22 # rest)
          = prepend c (prepend d (lex_string (quote_units cs @ 0x22 # rest)))"
      by (simp only: lex_string_plain [OF c] lex_string_plain [OF d])
    with True ih show ?thesis by simp
  next
    case False
    with 3 have ih: "lex_string (quote_units (d # cs) @ 0x22 # rest) = Some (d # cs, rest)" by simp
    have "lex_string (quote_unit c @ quote_units (d # cs) @ 0x22 # rest)
          = prepend c (lex_string (quote_units (d # cs) @ 0x22 # rest))"
      by (rule lex_string_quote_unit)
    moreover have "quote_units (c # d # cs) = quote_unit c @ quote_units (d # cs)"
      by (simp only: quote_units.simps False if_False)
    ultimately show ?thesis using ih by simp
  qed
qed

subsection \<open>Parsing the text of a list of strings\<close>

lemma next_token_quoted:
  "next_token (QuoteJSONString s @ rest) = Some (Scalar (JString s), rest)"
  by (simp add: next_token_def QuoteJSONString_def punctuation_def lex_string_quote_units)

declare tokens.simps [simp del]

lemma not_space_quote: "\<not> is_json_space 0x22" "\<not> is_json_space 0x2C" "\<not> is_json_space 0x5B"
  "\<not> is_json_space 0x5D"
  by (simp_all add: is_json_space_def)

lemma tokens_quoted:
  "tokens (QuoteJSONString s @ rest) = map_option ((#) (Scalar (JString s))) (tokens rest)"
proof -
  obtain r where r: "QuoteJSONString s @ rest = 0x22 # r"
    by (simp add: QuoteJSONString_def)
  have "length rest < length (QuoteJSONString s @ rest)"
    by (simp add: QuoteJSONString_def)
  with r have l: "length rest < length (0x22 # r)" by simp
  have n: "next_token (0x22 # r) = Some (Scalar (JString s), rest)"
    using next_token_quoted [of s rest] r by simp
  show ?thesis
    by (subst tokens.simps) (simp only: r dropWhile.simps not_space_quote if_False list.case n
        option.case prod.case l if_True)
qed

lemma tokens_comma: "tokens (0x2C # rest) = map_option ((#) Comma) (tokens rest)"
  by (subst tokens.simps) (simp add: not_space_quote next_token_def punctuation_def)

lemma tokens_open: "tokens (0x5B # rest) = map_option ((#) LBracket) (tokens rest)"
  by (subst tokens.simps) (simp add: not_space_quote next_token_def punctuation_def)

lemma tokens_close: "tokens [0x5D] = Some [RBracket]"
  by (subst tokens.simps, simp add: not_space_quote next_token_def punctuation_def)
     (subst tokens.simps, simp)

lemma tokens_tail:
  "tokens (concat (map (\<lambda>y. 0x2C # QuoteJSONString y) xs) @ [0x5D])
     = Some (concat (map (\<lambda>x. [Comma, Scalar (JString x)]) xs) @ [RBracket])"
proof (induction xs)
  case Nil
  show ?case using tokens_close by simp
next
  case (Cons x xs)
  have "tokens (concat (map (\<lambda>y. 0x2C # QuoteJSONString y) (x # xs)) @ [0x5D])
      = tokens (0x2C # QuoteJSONString x @
          (concat (map (\<lambda>y. 0x2C # QuoteJSONString y) xs) @ [0x5D]))"
    by simp
  also have "\<dots> = map_option ((#) Comma) (map_option ((#) (Scalar (JString x)))
      (tokens (concat (map (\<lambda>y. 0x2C # QuoteJSONString y) xs) @ [0x5D])))"
    by (simp only: tokens_comma tokens_quoted)
  also have "\<dots> = Some (concat (map (\<lambda>x. [Comma, Scalar (JString x)]) (x # xs)) @ [RBracket])"
    by (simp only: Cons.IH) simp
  finally show ?case .
qed

lemma JSON_stringify_units:
  "JSON_stringify [] = [0x5B, 0x5D]"
  "JSON_stringify (x # xs) =
     0x5B # QuoteJSONString x @ (concat (map (\<lambda>y. 0x2C # QuoteJSONString y) xs) @ [0x5D])"
  by (simp_all add: JSON_stringify_def js_def unit_of_def comp_def)

lemma tokens_JSON_stringify:
  "tokens (JSON_stringify xs) =
     Some (LBracket # (case xs of [] \<Rightarrow> [RBracket]
             | x # xs' \<Rightarrow> Scalar (JString x) #
                 concat (map (\<lambda>x. [Comma, Scalar (JString x)]) xs') @ [RBracket]))"
proof (cases xs)
  case Nil
  then show ?thesis by (simp add: JSON_stringify_units tokens_open tokens_close)
next
  case (Cons x xs')
  then show ?thesis
    by (simp only: JSON_stringify_units tokens_open tokens_quoted tokens_tail) simp
qed

lemma run_elements:
  "run (InArray es # [], CommaOrClose)
       (concat (map (\<lambda>x. [Comma, Scalar (JString x)]) xs) @ [RBracket])
     = Some ([], Finished (JArray (rev es @ map JString xs)))"
  by (induction xs arbitrary: es)
    (simp_all add: step_def close_def separator_def begin_value_def)

lemma JSON_parse_stringify: "JSON_parse (JSON_stringify xs) = Some (JArray (map JString xs))"
proof (cases xs)
  case Nil
  then show ?thesis
    by (simp add: JSON_parse_def tokens_JSON_stringify step_def begin_value_def close_def)
next
  case (Cons x xs')
  have "run ([], Value) (LBracket # Scalar (JString x) #
          concat (map (\<lambda>x. [Comma, Scalar (JString x)]) xs') @ [RBracket])
        = run (InArray [x'] # [], CommaOrClose)
            (concat (map (\<lambda>x. [Comma, Scalar (JString x)]) xs') @ [RBracket])"
    if "x' = JString x" for x'
    using that by (simp add: step_def begin_value_def)
  then show ?thesis using Cons
    by (simp add: JSON_parse_def tokens_JSON_stringify run_elements)
qed

subsection \<open>The length test of \<open>tokens\<close>\<close>

text \<open>
  Every token takes at least one code unit of the text, so the length test in \<open>tokens\<close>,
  which is there for its termination, never fails.
\<close>

lemma prepend_shorter:
  "prepend c x = Some (s, r) \<Longrightarrow> \<exists>s'. x = Some (s', r)"
  by (cases x) (auto simp: prepend_def)

lemma lex_string_backslash:
  "lex_string (0x5C # cs) =
     (case cs of
        [] \<Rightarrow> None
      | e # es \<Rightarrow>
          if e = 0x75 then
            (case es of
               h1 # h2 # h3 # h4 # r \<Rightarrow>
                 (case hex4 h1 h2 h3 h4 of None \<Rightarrow> None | Some u \<Rightarrow> prepend u (lex_string r))
             | _ \<Rightarrow> None)
          else (case unescape e of None \<Rightarrow> None | Some u \<Rightarrow> prepend u (lex_string es)))"
  by (simp add: lex_string.simps)

lemma lex_string_control:
  "c \<noteq> 0x22 \<Longrightarrow> c \<noteq> 0x5C \<Longrightarrow> c < 0x20 \<Longrightarrow> lex_string (c # cs) = None"
  by (simp add: lex_string.simps)

lemma lex_string_u_Some:
  assumes "lex_string (0x5C # 0x75 # es) = Some (s, r)"
  shows "\<exists>h1 h2 h3 h4 t u. es = h1 # h2 # h3 # h4 # t \<and> hex4 h1 h2 h3 h4 = Some u \<and>
           prepend u (lex_string t) = Some (s, r)"
proof -
  from assms have a: "(case es of
               h1 # h2 # h3 # h4 # r \<Rightarrow>
                 (case hex4 h1 h2 h3 h4 of None \<Rightarrow> None | Some u \<Rightarrow> prepend u (lex_string r))
             | _ \<Rightarrow> None) = Some (s, r)"
    by (simp add: lex_string_backslash)
  then obtain h1 e1 where e1: "es = h1 # e1" by (cases es) simp_all
  with a obtain h2 e2 where e2: "e1 = h2 # e2" by (cases e1) simp_all
  with a e1 obtain h3 e3 where e3: "e2 = h3 # e3" by (cases e2) simp_all
  with a e1 e2 obtain h4 t where e4: "e3 = h4 # t" by (cases e3) simp_all
  with a e1 e2 e3 obtain u where "hex4 h1 h2 h3 h4 = Some u" "prepend u (lex_string t) = Some (s, r)"
    by (cases "hex4 h1 h2 h3 h4") simp_all
  with e1 e2 e3 e4 show ?thesis by blast
qed

lemma lex_string_escape_Some:
  assumes "lex_string (0x5C # e # es) = Some (s, r)" and "e \<noteq> 0x75"
  shows "\<exists>u. unescape e = Some u \<and> prepend u (lex_string es) = Some (s, r)"
  using assms by (cases "unescape e") (simp_all add: lex_string_backslash)

lemma lex_string_shorter: "lex_string cs = Some (s, r) \<Longrightarrow> length r < length cs"
proof (induction "length cs" arbitrary: cs s r rule: less_induct)
  case less
  show ?case
  proof (cases cs)
    case Nil
    with less.prems show ?thesis by (simp add: lex_string.simps)
  next
    case (Cons c cs')
    consider "c = 0x22" | "c = 0x5C" | "c \<noteq> 0x22" "c \<noteq> 0x5C" "c < 0x20"
      | "c \<noteq> 0x22" "c \<noteq> 0x5C" "\<not> c < 0x20" by blast
    then show ?thesis
    proof cases
      case 1
      with less.prems Cons show ?thesis by (simp add: lex_string_end)
    next
      case 3
      with less.prems Cons show ?thesis by (simp add: lex_string_control)
    next
      case 4
      with less.prems Cons have "prepend c (lex_string cs') = Some (s, r)"
        by (simp add: lex_string_plain)
      from prepend_shorter [OF this] obtain s' where "lex_string cs' = Some (s', r)" ..
      with less.hyps [of cs' s' r] Cons show ?thesis by simp
    next
      case 2
      show ?thesis
      proof (cases cs')
        case Nil
        with 2 less.prems Cons show ?thesis by (simp add: lex_string_backslash)
      next
        case e: (Cons e es)
        show ?thesis
        proof (cases "e = 0x75")
          case True
          from less.prems have "lex_string (0x5C # 0x75 # es) = Some (s, r)"
            unfolding Cons e 2 True .
          from lex_string_u_Some [OF this] obtain h1 h2 h3 h4 t u
            where es: "es = h1 # h2 # h3 # h4 # t" and p: "prepend u (lex_string t) = Some (s, r)"
            by blast
          from prepend_shorter [OF p] obtain s' where "lex_string t = Some (s', r)" ..
          with less.hyps [of t s' r] Cons e es show ?thesis by simp
        next
          case False
          from less.prems have "lex_string (0x5C # e # es) = Some (s, r)"
            unfolding Cons e 2 .
          from lex_string_escape_Some [OF this False]
          obtain u where p: "prepend u (lex_string es) = Some (s, r)" by blast
          from prepend_shorter [OF p] obtain s' where "lex_string es = Some (s', r)" ..
          with less.hyps [of es s' r] Cons e show ?thesis by simp
        qed
      qed
    qed
  qed
qed

lemma digits_then_shorter: "digits_then cs = Some (d, r) \<Longrightarrow> length r < length cs"
proof -
  assume a: "digits_then cs = Some (d, r)"
  then have t: "takeWhile is_digit cs \<noteq> []" and r: "r = dropWhile is_digit cs"
    by (auto simp: digits_then_def split: if_splits)
  have "length (takeWhile is_digit cs) + length (dropWhile is_digit cs) = length cs"
    by (metis length_append takeWhile_dropWhile_id)
  with t r show ?thesis by (cases "takeWhile is_digit cs") simp_all
qed

lemma int_part_shorter: "int_part cs = Some (d, r) \<Longrightarrow> length r < length cs"
  by (cases cs) (auto simp: int_part_def dest: digits_then_shorter split: if_splits)

lemma frac_part_shorter: "frac_part cs = Some (d, r) \<Longrightarrow> length r \<le> length cs"
proof (cases cs)
  case Nil
  assume "frac_part cs = Some (d, r)"
  with Nil show ?thesis by (simp add: frac_part_def)
next
  case (Cons c t)
  assume a: "frac_part cs = Some (d, r)"
  show ?thesis
  proof (cases "c = 0x2E")
    case False
    with a Cons show ?thesis by (auto simp: frac_part_def)
  next
    case True
    with a Cons have "prepend c (digits_then t) = Some (d, r)" by (simp add: frac_part_def)
    from prepend_shorter [OF this] obtain d' where "digits_then t = Some (d', r)" ..
    from digits_then_shorter [OF this] Cons show ?thesis by simp
  qed
qed

lemma exp_part_shorter: "exp_part cs = Some (d, r) \<Longrightarrow> length r \<le> length cs"
proof (cases cs)
  case Nil
  assume "exp_part cs = Some (d, r)"
  with Nil show ?thesis by (simp add: exp_part_def)
next
  case (Cons c t)
  assume a: "exp_part cs = Some (d, r)"
  show ?thesis
  proof (cases "c = 0x65 \<or> c = 0x45")
    case False
    with a Cons show ?thesis by (auto simp: exp_part_def)
  next
    case True
    show ?thesis
    proof (cases t)
      case Nil
      with a Cons True show ?thesis by (auto simp: exp_part_def)
    next
      case t: (Cons e u)
      show ?thesis
      proof (cases "e = 0x2B \<or> e = 0x2D")
        case True
        with a Cons t \<open>c = 0x65 \<or> c = 0x45\<close>
        have "prepend c (prepend e (digits_then u)) = Some (d, r)"
          by (auto simp: exp_part_def)
        from prepend_shorter [OF this] obtain d1 where "prepend e (digits_then u) = Some (d1, r)" ..
        from prepend_shorter [OF this] obtain d' where "digits_then u = Some (d', r)" ..
        from digits_then_shorter [OF this] Cons t show ?thesis by simp
      next
        case False
        with a Cons t \<open>c = 0x65 \<or> c = 0x45\<close>
        have "prepend c (digits_then t) = Some (d, r)"
          by (auto simp: exp_part_def)
        from prepend_shorter [OF this] obtain d' where "digits_then t = Some (d', r)" ..
        from digits_then_shorter [OF this] Cons show ?thesis by simp
      qed
    qed
  qed
qed

lemma unsigned_number_shorter: "unsigned_number cs = Some (n, r) \<Longrightarrow> length r < length cs"
proof -
  assume "unsigned_number cs = Some (n, r)"
  then obtain i r1 f r2 e where i: "int_part cs = Some (i, r1)" and f: "frac_part r1 = Some (f, r2)"
    and e: "exp_part r2 = Some (e, r)"
    by (auto simp: unsigned_number_def split: option.splits)
  from int_part_shorter [OF i] frac_part_shorter [OF f] exp_part_shorter [OF e]
  show ?thesis by linarith
qed

lemma lex_number_shorter: "lex_number cs = Some (n, r) \<Longrightarrow> length r < length cs"
proof (cases cs)
  case Nil
  assume "lex_number cs = Some (n, r)"
  with Nil show ?thesis by (simp add: lex_number_def)
next
  case (Cons c t)
  assume a: "lex_number cs = Some (n, r)"
  show ?thesis
  proof (cases "c = 0x2D")
    case False
    with a Cons have "unsigned_number cs = Some (n, r)" by (simp add: lex_number_def)
    then show ?thesis by (rule unsigned_number_shorter)
  next
    case True
    with a Cons have "prepend c (unsigned_number t) = Some (n, r)" by (simp add: lex_number_def)
    from prepend_shorter [OF this] obtain n' where "unsigned_number t = Some (n', r)" ..
    from unsigned_number_shorter [OF this] Cons show ?thesis by simp
  qed
qed

lemma take_literal_shorter:
  "take n cs = w \<Longrightarrow> length w = n \<Longrightarrow> 0 < n \<Longrightarrow> length (drop n cs) < length cs"
proof -
  assume a: "take n cs = w" "length w = n" "0 < n"
  then have "length (take n cs) = n" by simp
  then have "min (length cs) n = n" by (simp only: length_take)
  with a(3) show ?thesis by simp
qed

lemma lex_word_shorter: "lex_word cs = Some (v, r) \<Longrightarrow> length r < length cs"
proof -
  assume a: "lex_word cs = Some (v, r)"
  then consider "take 4 cs = js ''true''" "r = drop 4 cs" | "take 5 cs = js ''false''" "r = drop 5 cs"
    | "take 4 cs = js ''null''" "r = drop 4 cs"
    by (auto simp: lex_word_def split: if_splits)
  then show ?thesis
  proof cases
    case 1
    then show ?thesis using take_literal_shorter [of 4 cs "js ''true''"] by (simp add: js_def)
  next
    case 2
    then show ?thesis using take_literal_shorter [of 5 cs "js ''false''"] by (simp add: js_def)
  next
    case 3
    then show ?thesis using take_literal_shorter [of 4 cs "js ''null''"] by (simp add: js_def)
  qed
qed

lemma next_token_shorter: "next_token cs = Some (t, r) \<Longrightarrow> length r < length cs"
proof (cases cs)
  case Nil
  assume "next_token cs = Some (t, r)"
  with Nil show ?thesis by (simp add: next_token_def)
next
  case (Cons c cs')
  assume a: "next_token cs = Some (t, r)"
  show ?thesis
  proof (cases "punctuation c")
    case (Some p)
    with a Cons show ?thesis by (auto simp: next_token_def)
  next
    case None
    with a Cons consider s where "c = 0x22" "lex_string cs' = Some (s, r)"
      | n where "lex_number cs = Some (n, r)" | v where "lex_word cs = Some (v, r)"
      by (auto simp: next_token_def split: if_splits)
    then show ?thesis
    proof cases
      case 1
      from lex_string_shorter [OF 1(2)] Cons show ?thesis by simp
    next
      case 2
      then show ?thesis by (rule lex_number_shorter)
    next
      case 3
      then show ?thesis by (rule lex_word_shorter)
    qed
  qed
qed

lemma tokens_unfold:
  "tokens cs =
     (case dropWhile is_json_space cs of
        [] \<Rightarrow> Some []
      | c # r \<Rightarrow>
          (case next_token (c # r) of
             None \<Rightarrow> None
           | Some (t, rest) \<Rightarrow> map_option ((#) t) (tokens rest)))"
proof (cases "dropWhile is_json_space cs")
  case Nil
  then show ?thesis by (subst tokens.simps) (simp only: list.case)
next
  case (Cons c r)
  show ?thesis
  proof (cases "next_token (c # r)")
    case None
    with Cons show ?thesis by (subst tokens.simps) (simp only: list.case option.case)
  next
    case (Some p)
    obtain t rest where p: "p = (t, rest)" by (cases p)
    with Some have "length rest < length (c # r)" using next_token_shorter by blast
    with Cons Some p show ?thesis
      by (subst tokens.simps) (simp only: list.case option.case prod.case if_True)
  qed
qed

subsection \<open>Writing and reading the bookmarks\<close>

lemma JSON_stringify_not_Nil: "JSON_stringify xs \<noteq> []"
  by (simp add: JSON_stringify_def js_def)

lemma those_strings: "those (map (string_of \<circ> JString) xs) = Some xs"
  by (induction xs) simp_all

lemmas json_eval = JSON_parse_def tokens.simps next_token_def punctuation_def
  is_json_space_def js_def unit_of_def lex_number_def unsigned_number_def int_part_def
  frac_part_def exp_part_def digits_then_def is_digit_def lex_word_def step_def begin_value_def
  close_def separator_def member_key_def prepend_def

lemma parse_garbage: "JSON_parse (js ''[2024-05000'') = None"
  by (simp add: json_eval)

lemma parse_null: "JSON_parse (js ''null'') = Some JNull"
  by (simp add: json_eval)

lemma parse_empty_object: "JSON_parse (js ''{}'') = Some (JObject [])"
  by (simp add: json_eval)

lemma JSON_stringify_example:
  "JSON_stringify [js ''2024-05000'', js ''2024-07000'']
     = js ''['' @ [0x22] @ js ''2024-05000'' @ [0x22] @ js '','' @ [0x22] @ js ''2024-07000''
         @ [0x22] @ js '']''"
  by (simp add: JSON_stringify_def QuoteJSONString_def quote_unit_def is_high_def is_low_def
      js_def unit_of_def)

text \<open>
  C8 (as stated, refuted): the stored text \<^verbatim>\<open>null\<close> is not the text of an array of
  identifiers, yet the initialiser does not fall back to the empty array: \<^verbatim>\<open>JSON.parse\<close>
  accepts the text and its value \<^verbatim>\<open>null\<close> becomes the bookmarks, which is no array of
  strings.
\<close>

theorem stored_null_not_healed_counterexample:
  "JSON_parse (js ''null'') = Some JNull \<and>
   load_bookmarks (Items (Map.empty(bookmarks_key \<mapsto> js ''null''))) = JNull \<and>
   load_bookmarks (Items (Map.empty(bookmarks_key \<mapsto> js ''null''))) \<noteq> JArray [] \<and>
   string_array (load_bookmarks (Items (Map.empty(bookmarks_key \<mapsto> js ''null'')))) = None"
proof -
  have n: "js ''null'' \<noteq> []" by (simp add: js_def)
  have "load_bookmarks (Items (Map.empty(bookmarks_key \<mapsto> js ''null''))) = JNull"
    using n by (simp add: load_bookmarks_def useLocalStorage_initial_def getItem_def parse_null)
  then show ?thesis by (simp add: parse_null)
qed

text \<open>
  C8 (amended): a list of bookmark identifiers that is written to storage (as the JSON
  text of an array of strings under the key \<^verbatim>\<open>regx_bookmarks\<close>) and then read by the
  initialiser comes back as the array of the same strings, in the same order, so as the
  same set. When reading throws, when nothing is stored under the key, when the empty
  string is stored, and when the stored text is not JSON, the initialiser gives the empty
  array. A stored text that is JSON is taken as its parsed value, whatever its shape.
\<close>

theorem bookmarks_storage_round_trip:
  "load_bookmarks (save_bookmarks (Items m) bs) = JArray (map JString bs) \<and>
   string_array (load_bookmarks (save_bookmarks (Items m) bs)) = Some bs \<and>
   load_bookmarks Disabled = JArray [] \<and>
   (m bookmarks_key = None \<longrightarrow> load_bookmarks (Items m) = JArray []) \<and>
   (m bookmarks_key = Some [] \<longrightarrow> load_bookmarks (Items m) = JArray []) \<and>
   (m bookmarks_key = Some raw \<and> JSON_parse raw = None \<longrightarrow> load_bookmarks (Items m) = JArray []) \<and>
   (m bookmarks_key = Some raw \<and> raw \<noteq> [] \<and> JSON_parse raw = Some v \<longrightarrow>
      load_bookmarks (Items m) = v)"
  by (simp add: load_bookmarks_def save_bookmarks_def useLocalStorage_initial_def
      useLocalStorage_effect_def getItem_def setItem_def JSON_stringify_not_Nil
      JSON_parse_stringify those_strings)

theorem bookmarks_storage_round_trip_witness:
  "load_bookmarks (save_bookmarks (Items Map.empty) [js ''2024-05000'', js ''2024-07000''])
     = JArray [JString (js ''2024-05000''), JString (js ''2024-07000'')] \<and>
   string_array (load_bookmarks (save_bookmarks (Items Map.empty)
       (toggle (js ''2024-05000'') [js ''2024-05000'', js ''2024-07000''])))
     = Some [js ''2024-07000''] \<and>
   load_bookmarks (Items Map.empty) = JArray [] \<and>
   JSON_parse (js ''[2024-05000'') = None \<and>
   load_bookmarks (Items (Map.empty(bookmarks_key \<mapsto> js ''[2024-05000''))) = JArray [] \<and>
   JSON_parse (js ''{}'') = Some (JObject []) \<and>
   load_bookmarks (Items (Map.empty(bookmarks_key \<mapsto> js ''{}''))) = JObject []"
proof -
  have ne: "js ''{}'' \<noteq> []" by (simp add: js_def)
  have a: "load_bookmarks (save_bookmarks (Items Map.empty) [js ''2024-05000'', js ''2024-07000''])
     = JArray [JString (js ''2024-05000''), JString (js ''2024-07000'')]"
    "load_bookmarks (Items Map.empty) = JArray []"
    using bookmarks_storage_round_trip [of Map.empty "[js ''2024-05000'', js ''2024-07000'']" "[]"]
    by simp_all
  have b: "string_array (load_bookmarks (save_bookmarks (Items Map.empty)
       (toggle (js ''2024-05000'') [js ''2024-05000'', js ''2024-07000''])))
     = Some [js ''2024-07000'']"
    using bookmarks_storage_round_trip [of Map.empty
      "toggle (js ''2024-05000'') [js ''2024-05000'', js ''2024-07000'']" "[]"]
    by (simp add: toggle_def js_def unit_of_def)
  have c: "load_bookmarks (Items (Map.empty(bookmarks_key \<mapsto> js ''[2024-05000''))) = JArray []"
    using bookmarks_storage_round_trip [of "Map.empty(bookmarks_key \<mapsto> js ''[2024-05000'')" "[]"
      "js ''[2024-05000''"] parse_garbage
    by simp
  have d: "load_bookmarks (Items (Map.empty(bookmarks_key \<mapsto> js ''{}''))) = JObject []"
    using bookmarks_storage_round_trip [of "Map.empty(bookmarks_key \<mapsto> js ''{}'')" "[]"
      "js ''{}''" "JObject []"] parse_empty_object ne
    by simp
  from a b c d parse_garbage parse_empty_object show ?thesis by (simp only: simp_thms)
qed

end
